theory Spec2Isabelle
  imports Main "HOL-Library.Word" "HOL-Library.Multiset"
begin

section \<open>The task store of the planner (src/lib/DB.ts, src/lib/utils.ts)\<close>

text \<open>
  The store is the class \<open>DB\<close>: one SQLite table \<open>task\<close> held in memory by sql.js,
  and one localStorage item that receives the exported image of the database.
  The model keeps the table as the list of its rows in rowid order (INSERT appends,
  DELETE removes, UPDATE rewrites in place) and the localStorage item as an optional string.
\<close>

subsection \<open>Data\<close>

text \<open>
  A JavaScript \<open>Date\<close> is an instant, a number of milliseconds since the epoch. The column
  \<open>date TEXT\<close> holds \<open>toISOString()\<close> of such an instant: a fixed-width UTC text (years
  0000 to 9999) that SQLite compares as text in the order of the instants, and that
  \<open>new Date(text)\<close> reads back as the same instant. The model stores the instant.
\<close>

type_synonym Date = int

text \<open>\<open>Period\<close> is the string union \<open>"days" | "weeks" | "months" | "year"\<close>; at run time it is a string.\<close>

type_synonym Period = string

text \<open>A row of \<open>task (id TEXT UNIQUE, name TEXT, complete BOOLEAN, sortOrder INTEGER, period TEXT, date TEXT)\<close>.\<close>

record row =
  col_id :: string
  col_name :: string
  col_complete :: int
  col_sortOrder :: int
  col_period :: string
  col_date :: Date

text \<open>\<open>interface Task\<close>; the field \<open>id\<close> is written \<open>id_task\<close>.\<close>

record Task =
  id_task :: string
  name :: string
  complete :: bool
  sortOrder :: int
  period :: Period
  date :: Date

text \<open>
  What the store takes from its libraries: the date-fns functions (they work in the
  local time zone of the browser), the generator behind \<open>generateId\<close> (the outcome of the
  n-th draw of nanoid), and sql.js's \<open>export\<close> of a database to bytes with
  \<open>new SQL.Database(bytes)\<close> reading such bytes.
\<close>

record platform =
  startOfDay :: "Date \<Rightarrow> Date"
  endOfDay :: "Date \<Rightarrow> Date"
  startOfWeek :: "Date \<Rightarrow> Date"
  startOfMonth :: "Date \<Rightarrow> Date"
  startOfYear :: "Date \<Rightarrow> Date"
  subDays :: "Date \<Rightarrow> int \<Rightarrow> Date"
  subWeeks :: "Date \<Rightarrow> int \<Rightarrow> Date"
  subMonths :: "Date \<Rightarrow> int \<Rightarrow> Date"
  subYears :: "Date \<Rightarrow> int \<Rightarrow> Date"
  nanoid :: "nat \<Rightarrow> string"
  db_export :: "row list \<Rightarrow> 8 word list"
  db_import :: "8 word list \<Rightarrow> row list"

text \<open>
  The state: \<open>this.db\<close>, the localStorage item \<open>PLANNER_SQLITE\<close>, and the number of ids
  drawn from nanoid so far.
\<close>

record store =
  db :: "row list"
  slot :: "string option"
  draws :: nat

text \<open>A thrown \<open>Error\<close> with its message.\<close>

datatype error = Error string

definition NotFound :: error where
  "NotFound = Error ''Not Found''"

definition ValidationError :: "string \<Rightarrow> error" where
  "ValidationError i = Error (''Task with id '' @ i @ '' does not exist for the specified day.'')"

text \<open>What sql.js throws when an INSERT repeats an \<open>id\<close> (the column is UNIQUE).\<close>

definition ConstraintError :: error where
  "ConstraintError = Error ''UNIQUE constraint failed: task.id''"

text \<open>What \<open>JSON.parse\<close> throws on a text that is not JSON.\<close>

definition SyntaxError :: error where
  "SyntaxError = Error ''SyntaxError''"

subsection \<open>utils.ts\<close>

definition startOfPeriod :: "'a platform_scheme \<Rightarrow> Date \<Rightarrow> Period \<Rightarrow> Date" where
  "startOfPeriod env d p =
     (if p = ''days'' then startOfDay env d
      else if p = ''weeks'' then startOfWeek env d
      else if p = ''months'' then startOfMonth env d
      else if p = ''year'' then startOfYear env d
      else d)"

subsection \<open>save: JSON.stringify(Array.from(db.export()))\<close>

definition digit_char :: "nat \<Rightarrow> char" where
  "digit_char d = char_of (48 + d)"

fun string_of_nat :: "nat \<Rightarrow> string" where
  "string_of_nat n = (if n < 10 then [digit_char n] else string_of_nat (n div 10) @ [digit_char (n mod 10)])"

declare string_of_nat.simps [simp del]

fun join_comma :: "string list \<Rightarrow> string" where
  "join_comma [] = []"
| "join_comma [x] = x"
| "join_comma (x # y # ys) = x @ CHR '','' # join_comma (y # ys)"

text \<open>\<open>JSON.stringify\<close> of an array of numbers between 0 and 255: \<open>[83,81,76]\<close>.\<close>

definition JSON_stringify :: "nat list \<Rightarrow> string" where
  "JSON_stringify xs = CHR ''['' # join_comma (map string_of_nat xs) @ [CHR '']'']"

definition save :: "'a platform_scheme \<Rightarrow> store \<Rightarrow> store" where
  "save env s = s\<lparr>slot := Some (JSON_stringify (map unat (db_export env (db s))))\<rparr>"

subsection \<open>list and read\<close>

text \<open>The conversion of a result row to a \<open>Task\<close>: \<open>complete?.valueOf() === 1 || false\<close>.\<close>

definition toTask :: "row \<Rightarrow> Task" where
  "toTask r = \<lparr>id_task = col_id r, name = col_name r, complete = (col_complete r = 1),
               sortOrder = col_sortOrder r, period = col_period r, date = col_date r\<rparr>"

text \<open>
  \<open>db.exec\<close> of a SELECT with a WHERE clause and \<open>ORDER BY sortOrder\<close>: no result set when
  no row matches, else one result set with the rows. Rows of equal \<open>sortOrder\<close> come out
  in rowid order.
\<close>

definition exec_select :: "(row \<Rightarrow> bool) \<Rightarrow> row list \<Rightarrow> row list list" where
  "exec_select P t = (let vs = sort_key col_sortOrder (filter P t) in if vs = [] then [] else [vs])"

text \<open>\<open>date >= startOfDay(day) AND date < endOfDay(day)\<close>.\<close>

definition inDay :: "'a platform_scheme \<Rightarrow> Date \<Rightarrow> Date \<Rightarrow> bool" where
  "inDay env day d \<longleftrightarrow> startOfDay env day \<le> d \<and> d < endOfDay env day"

text \<open>
  The four queries of \<open>list\<close>, chosen by \<open>!!day\<close> and \<open>!!period\<close>: a \<open>Date\<close> is always
  truthy, a string is truthy when it is not empty.
\<close>

definition whereClause :: "'a platform_scheme \<Rightarrow> Date option \<Rightarrow> Period option \<Rightarrow> row \<Rightarrow> bool" where
  "whereClause env day p r =
     (case (day, p) of
        (Some d, Some q) \<Rightarrow>
          (if q \<noteq> [] then inDay env d (col_date r) \<and> col_period r = q
           else inDay env d (col_date r))
      | (Some d, None) \<Rightarrow> inDay env d (col_date r)
      | (None, Some q) \<Rightarrow> (if q \<noteq> [] then col_period r = q else True)
      | (None, None) \<Rightarrow> True)"

text \<open>
  \<open>list\<close>; every result row has six columns, so the test \<open>res[0].values[0].length < 3\<close>
  is false whenever there is a first row.
\<close>

definition list_tasks :: "'a platform_scheme \<Rightarrow> Date option \<Rightarrow> Period option \<Rightarrow> store \<Rightarrow> Task list" where
  "list_tasks env day p s =
     (case exec_select (whereClause env day p) (db s) of
        [] \<Rightarrow> []
      | vs # _ \<Rightarrow> (if vs = [] then [] else map toTask vs))"

definition read :: "string \<Rightarrow> store \<Rightarrow> Task option" where
  "read i s =
     (case filter (\<lambda>r. col_id r = i) (db s) of
        [] \<Rightarrow> None
      | r # _ \<Rightarrow> Some (toTask r))"

definition checkExists :: "string \<Rightarrow> store \<Rightarrow> error + Task" where
  "checkExists i s = (case read i s of None \<Rightarrow> Inl NotFound | Some t \<Rightarrow> Inr t)"

subsection \<open>The mutating operations\<close>

text \<open>
  An operation returns what the caller gets (a thrown error on the left, the returned
  value on the right) and the state the call leaves behind, also when it throws.
\<close>

text \<open>
  \<open>create\<close>: \<open>generateId\<close> takes the next draw of nanoid; \<open>db.run\<close> of the INSERT throws
  when that id is already in the table, the column \<open>id\<close> being UNIQUE, and then nothing
  is inserted or saved.
\<close>

definition create :: "'a platform_scheme \<Rightarrow> string \<Rightarrow> Date \<Rightarrow> Period \<Rightarrow> store \<Rightarrow> (error + Task option) \<times> store" where
  "create env nm day p s =
     (let i = nanoid env (draws s);
          s1 = s\<lparr>draws := Suc (draws s)\<rparr>;
          tasks = list_tasks env (Some day) None s1;
          d = startOfPeriod env day p
      in if i \<in> set (map col_id (db s1)) then (Inl ConstraintError, s1)
         else
           let s2 = s1\<lparr>db := db s1 @
                      [\<lparr>col_id = i, col_name = nm, col_complete = 0,
                        col_sortOrder = int (length tasks) + 1, col_period = p, col_date = d\<rparr>]\<rparr>;
               s3 = save env s2
           in (Inr (read i s3), s3))"

definition update :: "string \<Rightarrow> string \<Rightarrow> store \<Rightarrow> (error + Task option) \<times> store" where
  "update i nm s =
     (case checkExists i s of
        Inl e \<Rightarrow> (Inl e, s)
      | Inr _ \<Rightarrow>
          let s1 = s\<lparr>db := map (\<lambda>r. if col_id r = i then r\<lparr>col_name := nm\<rparr> else r) (db s)\<rparr>
          in (Inr (read i s1), s1))"

definition markComplete :: "'a platform_scheme \<Rightarrow> string \<Rightarrow> store \<Rightarrow> (error + Task option) \<times> store" where
  "markComplete env i s =
     (case checkExists i s of
        Inl e \<Rightarrow> (Inl e, s)
      | Inr _ \<Rightarrow>
          let s1 = s\<lparr>db := map (\<lambda>r. if col_id r = i then r\<lparr>col_complete := 1\<rparr> else r) (db s)\<rparr>;
              s2 = save env s1
          in (Inr (read i s2), s2))"

definition markIncomplete :: "'a platform_scheme \<Rightarrow> string \<Rightarrow> store \<Rightarrow> (error + Task option) \<times> store" where
  "markIncomplete env i s =
     (case checkExists i s of
        Inl e \<Rightarrow> (Inl e, s)
      | Inr _ \<Rightarrow>
          let s1 = s\<lparr>db := map (\<lambda>r. if col_id r = i then r\<lparr>col_complete := 0\<rparr> else r) (db s)\<rparr>;
              s2 = save env s1
          in (Inr (read i s2), s2))"

text \<open>\<open>UPDATE task SET sortOrder = ? WHERE id = ?\<close>.\<close>

definition set_sortOrder :: "nat \<Rightarrow> string \<Rightarrow> row list \<Rightarrow> row list" where
  "set_sortOrder n i t = map (\<lambda>r. if col_id r = i then r\<lparr>col_sortOrder := int n\<rparr> else r) t"

text \<open>
  The \<open>forEach\<close> of \<open>updateOrder\<close> from index \<open>n\<close> on: each id is checked, then its row
  updated; the throw leaves the rows already updated as they are.
\<close>

fun updateOrder_forEach :: "string set \<Rightarrow> string list \<Rightarrow> nat \<Rightarrow> row list \<Rightarrow> error option \<times> row list" where
  "updateOrder_forEach taskIdsForDay [] n t = (None, t)"
| "updateOrder_forEach taskIdsForDay (i # is) n t =
     (if i \<notin> taskIdsForDay then (Some (ValidationError i), t)
      else updateOrder_forEach taskIdsForDay is (Suc n) (set_sortOrder n i t))"

definition updateOrder :: "'a platform_scheme \<Rightarrow> Date \<Rightarrow> Period \<Rightarrow> string list \<Rightarrow> store \<Rightarrow> (error + unit) \<times> store" where
  "updateOrder env day p orderedIds s =
     (let tasks = list_tasks env (Some day) (Some p) s;
          taskIdsForDay = set (map id_task tasks)
      in case updateOrder_forEach taskIdsForDay orderedIds 0 (db s) of
           (Some e, t) \<Rightarrow> (Inl e, s\<lparr>db := t\<rparr>)
         | (None, t) \<Rightarrow> (Inr (), save env (s\<lparr>db := t\<rparr>)))"

definition delete :: "'a platform_scheme \<Rightarrow> string \<Rightarrow> store \<Rightarrow> (error + unit) \<times> store" where
  "delete env i s =
     (case checkExists i s of
        Inl e \<Rightarrow> (Inl e, s)
      | Inr taskToBeDeleted \<Rightarrow>
          let s1 = s\<lparr>db := filter (\<lambda>r. col_id r \<noteq> i) (db s)\<rparr>;
              tasks = list_tasks env (Some (date taskToBeDeleted)) (Some (period taskToBeDeleted)) s1
          in (case updateOrder env (date taskToBeDeleted) (period taskToBeDeleted)
                     (map id_task (filter (\<lambda>t. id_task taskToBeDeleted \<noteq> id_task t) tasks)) s1 of
                (Inl e, s2) \<Rightarrow> (Inl e, s2)
              | (Inr _, s2) \<Rightarrow> (Inr (), save env s2)))"

text \<open>The loop of \<open>copyIncompletes\<close>: one \<open>create\<close> per task, stopped by the first throw.\<close>

fun create_each :: "'a platform_scheme \<Rightarrow> Task list \<Rightarrow> Date \<Rightarrow> Period \<Rightarrow> store \<Rightarrow> error option \<times> store" where
  "create_each env [] day p s = (None, s)"
| "create_each env (task # rest) day p s =
     (case create env (name task) day p s of
        (Inl e, s1) \<Rightarrow> (Some e, s1)
      | (Inr _, s1) \<Rightarrow> create_each env rest day p s1)"

definition copyIncompletes :: "'a platform_scheme \<Rightarrow> Date \<Rightarrow> Period \<Rightarrow> store \<Rightarrow> (error + unit) \<times> store" where
  "copyIncompletes env day p s =
     (let previous =
            (if p = ''days'' then list_tasks env (Some (startOfDay env (subDays env day 1))) (Some p) s
             else if p = ''weeks'' then list_tasks env (Some (startOfWeek env (subWeeks env day 1))) (Some p) s
             else if p = ''months'' then list_tasks env (Some (startOfMonth env (subMonths env day 1))) (Some p) s
             else list_tasks env (Some (startOfYear env (subYears env day 1))) (Some p) s);
          incompletes = filter (\<lambda>task. \<not> complete task) previous
      in case create_each env incompletes day p s of
           (Some e, s1) \<Rightarrow> (Inl e, s1)
         | (None, s1) \<Rightarrow> (Inr (), save env s1))"

definition clearPeriod :: "'a platform_scheme \<Rightarrow> Date \<Rightarrow> Period \<Rightarrow> store \<Rightarrow> store" where
  "clearPeriod env day p s =
     save env (s\<lparr>db := filter (\<lambda>r. \<not> (inDay env day (col_date r) \<and> col_period r = p)) (db s)\<rparr>)"

subsection \<open>The constructor: the saved image read back\<close>

definition is_digit :: "char \<Rightarrow> bool" where
  "is_digit c \<longleftrightarrow> (48::nat) \<le> of_char c \<and> (of_char c :: nat) \<le> 57"

text \<open>A JSON number without sign, fraction or exponent; a leading zero is a syntax error.\<close>

definition parse_nat :: "string \<Rightarrow> nat option" where
  "parse_nat w =
     (if w \<noteq> [] \<and> list_all is_digit w \<and> (1 < length w \<longrightarrow> hd w \<noteq> CHR ''0'')
      then Some (foldl (\<lambda>n c. 10 * n + (of_char c - 48)) 0 w)
      else None)"

fun split_comma :: "string \<Rightarrow> string list" where
  "split_comma [] = [[]]"
| "split_comma (c # cs) =
     (if c = CHR '','' then [] # split_comma cs
      else (case split_comma cs of [] \<Rightarrow> [[c]] | w # ws \<Rightarrow> (c # w) # ws))"

text \<open>
  \<open>JSON.parse\<close> on the texts that \<open>JSON.stringify\<close> writes for an array of such numbers
  (no white space); any other text is answered with the syntax error.
\<close>

definition JSON_parse :: "string \<Rightarrow> error + nat list" where
  "JSON_parse txt =
     (case txt of
        [] \<Rightarrow> Inl SyntaxError
      | c # rest \<Rightarrow>
          (if c = CHR ''['' \<and> rest \<noteq> [] \<and> last rest = CHR '']'' then
             (let body = butlast rest in
              if body = [] then Inr []
              else (let items = map parse_nat (split_comma body) in
                    if list_all (\<lambda>x. x \<noteq> None) items then Inr (map the items)
                    else Inl SyntaxError))
           else Inl SyntaxError))"

text \<open>
  \<open>new DB(SQL)\<close>, given the localStorage item and the number of ids drawn so far:
  a saved text that is truthy is parsed, turned into a \<open>Uint8Array\<close> and loaded;
  otherwise the table is created empty.
\<close>

definition DB_constructor :: "'a platform_scheme \<Rightarrow> string option \<Rightarrow> nat \<Rightarrow> error + store" where
  "DB_constructor env savedData n =
     (case savedData of
        None \<Rightarrow> Inr \<lparr>db = [], slot = savedData, draws = n\<rparr>
      | Some txt \<Rightarrow>
          (if txt \<noteq> [] then
             (case JSON_parse txt of
                Inl e \<Rightarrow> Inl e
              | Inr binaryArray \<Rightarrow>
                  Inr \<lparr>db = db_import env (map of_nat binaryArray), slot = savedData, draws = n\<rparr>)
           else Inr \<lparr>db = [], slot = savedData, draws = n\<rparr>))"

section \<open>A platform for the examples\<close>

text \<open>
  The examples run on a browser in the UTC time zone. The calendar follows the
  documented behaviour of date-fns (weeks start on Sunday; \<open>subMonths\<close> keeps the time
  of day and stops at the last day of a shorter month), the ids are consecutive
  words over nanoid's alphabet, and the image is a small byte format with
  length-prefixed texts in place of the SQLite file format.
\<close>

definition msPerDay :: int where
  "msPerDay = 86400000"

definition days_from_civil :: "int \<Rightarrow> int \<Rightarrow> int \<Rightarrow> int" where
  "days_from_civil y m d =
     (let y1 = (if m \<le> 2 then y - 1 else y);
          era = y1 div 400;
          yoe = y1 - era * 400;
          doy = (153 * (if 2 < m then m - 3 else m + 9) + 2) div 5 + d - 1;
          doe = yoe * 365 + yoe div 4 - yoe div 100 + doy
      in era * 146097 + doe - 719468)"

definition civil_from_days :: "int \<Rightarrow> int \<times> int \<times> int" where
  "civil_from_days z =
     (let z1 = z + 719468;
          era = z1 div 146097;
          doe = z1 - era * 146097;
          yoe = (doe - doe div 1460 + doe div 36524 - doe div 146096) div 365;
          doy = doe - (365 * yoe + yoe div 4 - yoe div 100);
          mp = (5 * doy + 2) div 153;
          d = doy - (153 * mp + 2) div 5 + 1;
          m = (if mp < 10 then mp + 3 else mp - 9);
          y = yoe + era * 400 + (if m \<le> 2 then 1 else 0)
      in (y, m, d))"

definition utc_startOfDay :: "Date \<Rightarrow> Date" where
  "utc_startOfDay t = t - t mod msPerDay"

definition utc_endOfDay :: "Date \<Rightarrow> Date" where
  "utc_endOfDay t = utc_startOfDay t + (msPerDay - 1)"

definition utc_startOfWeek :: "Date \<Rightarrow> Date" where
  "utc_startOfWeek t = (let n = t div msPerDay in (n - (n + 4) mod 7) * msPerDay)"

definition utc_startOfMonth :: "Date \<Rightarrow> Date" where
  "utc_startOfMonth t = (case civil_from_days (t div msPerDay) of (y, m, d) \<Rightarrow> days_from_civil y m 1 * msPerDay)"

definition utc_startOfYear :: "Date \<Rightarrow> Date" where
  "utc_startOfYear t = (case civil_from_days (t div msPerDay) of (y, m, d) \<Rightarrow> days_from_civil y 1 1 * msPerDay)"

definition utc_subMonths :: "Date \<Rightarrow> int \<Rightarrow> Date" where
  "utc_subMonths t k =
     (case civil_from_days (t div msPerDay) of
        (y, m, d) \<Rightarrow>
          (let total = y * 12 + (m - 1) - k;
               y1 = total div 12;
               m1 = total mod 12 + 1;
               next = total + 1;
               daysInMonth = days_from_civil (next div 12) (next mod 12 + 1) 1 - days_from_civil y1 m1 1
           in days_from_civil y1 m1 (min d daysInMonth) * msPerDay + t mod msPerDay))"

definition nanoid_alphabet :: string where
  "nanoid_alphabet = ''23456789ABCDEFGHIJKMNPQRSTUVWXYZ''"

definition utc_nanoid :: "nat \<Rightarrow> string" where
  "utc_nanoid k = map (\<lambda>j. nanoid_alphabet ! nat ((int k div 32 ^ j) mod 32)) [9, 8, 7, 6, 5, 4, 3, 2, 1, 0]"

definition put_text :: "string \<Rightarrow> 8 word list" where
  "put_text w = of_nat (length w) # map (\<lambda>c. of_nat (of_char c)) w"

definition put_int :: "int \<Rightarrow> 8 word list" where
  "put_int k = map (\<lambda>j. of_int (k div 256 ^ j)) [7, 6, 5, 4, 3, 2, 1, 0]"

definition get_text :: "8 word list \<Rightarrow> string \<times> 8 word list" where
  "get_text bs =
     (case bs of
        [] \<Rightarrow> ([], [])
      | b # rest \<Rightarrow> (map (\<lambda>x. char_of (unat x)) (take (unat b) rest), drop (unat b) rest))"

definition get_int :: "8 word list \<Rightarrow> int \<times> 8 word list" where
  "get_int bs = (foldl (\<lambda>k b. k * 256 + uint b) 0 (take 8 bs), drop 8 bs)"

definition utc_export :: "row list \<Rightarrow> 8 word list" where
  "utc_export t =
     concat (map (\<lambda>r. put_text (col_id r) @ put_text (col_name r) @ put_int (col_complete r) @
                       put_int (col_sortOrder r) @ put_text (col_period r) @ put_int (col_date r)) t)"

fun utc_import_rows :: "nat \<Rightarrow> 8 word list \<Rightarrow> row list" where
  "utc_import_rows 0 bs = []"
| "utc_import_rows (Suc fuel) bs =
     (if bs = [] then []
      else
        (case get_text bs of (i, bs1) \<Rightarrow>
         case get_text bs1 of (nm, bs2) \<Rightarrow>
         case get_int bs2 of (c, bs3) \<Rightarrow>
         case get_int bs3 of (so, bs4) \<Rightarrow>
         case get_text bs4 of (p, bs5) \<Rightarrow>
         case get_int bs5 of (d, bs6) \<Rightarrow>
           \<lparr>col_id = i, col_name = nm, col_complete = c, col_sortOrder = so,
            col_period = p, col_date = d\<rparr> # utc_import_rows fuel bs6))"

definition utc_import :: "8 word list \<Rightarrow> row list" where
  "utc_import bs = utc_import_rows (length bs) bs"

definition utc :: platform where
  "utc = \<lparr>startOfDay = utc_startOfDay, endOfDay = utc_endOfDay, startOfWeek = utc_startOfWeek,
          startOfMonth = utc_startOfMonth, startOfYear = utc_startOfYear,
          subDays = (\<lambda>t k. t - k * msPerDay), subWeeks = (\<lambda>t k. t - k * 7 * msPerDay),
          subMonths = utc_subMonths, subYears = (\<lambda>t k. utc_subMonths t (12 * k)),
          nanoid = utc_nanoid, db_export = utc_export, db_import = utc_import\<rparr>"

text \<open>Monday 10 June 2024, 00:00 UTC, and the same day at 09:30.\<close>

definition day_2024_06_10 :: Date where
  "day_2024_06_10 = 1717977600000"

definition morning_2024_06_10 :: Date where
  "morning_2024_06_10 = 1718011800000"

text \<open>Tuesday 11 June 2024, 00:00 UTC.\<close>

definition day_2024_06_11 :: Date where
  "day_2024_06_11 = 1718064000000"

text \<open>The store of a first run: no saved image, an empty table.\<close>

definition empty_store :: store where
  "empty_store = \<lparr>db = [], slot = None, draws = 0\<rparr>"

text \<open>Three tasks of the bucket of 10 June 2024, period \<open>days\<close>, in dense order; the second is complete.\<close>

definition row_A :: row where
  "row_A = \<lparr>col_id = ''2222222222'', col_name = ''A'', col_complete = 0, col_sortOrder = 0,
             col_period = ''days'', col_date = day_2024_06_10\<rparr>"

definition row_B :: row where
  "row_B = \<lparr>col_id = ''2222222223'', col_name = ''B'', col_complete = 1, col_sortOrder = 1,
             col_period = ''days'', col_date = day_2024_06_10\<rparr>"

definition row_C :: row where
  "row_C = \<lparr>col_id = ''2222222224'', col_name = ''C'', col_complete = 0, col_sortOrder = 2,
             col_period = ''days'', col_date = day_2024_06_10\<rparr>"

definition example_store :: store where
  "example_store = \<lparr>db = [row_A, row_B, row_C], slot = None, draws = 3\<rparr>"

section \<open>Notions used in the statements\<close>

text \<open>The ids of the bucket \<open>(day, period)\<close>: \<open>taskIdsForDay\<close> in \<open>updateOrder\<close>.\<close>

definition bucket_ids :: "'a platform_scheme \<Rightarrow> Date \<Rightarrow> Period \<Rightarrow> store \<Rightarrow> string set" where
  "bucket_ids env day p s = set (map id_task (list_tasks env (Some day) (Some p) s))"

text \<open>The last position of \<open>x\<close> in a list.\<close>

fun last_pos :: "'a list \<Rightarrow> 'a \<Rightarrow> nat option" where
  "last_pos [] x = None"
| "last_pos (y # ys) x =
     (case last_pos ys x of
        Some j \<Rightarrow> Some (Suc j)
      | None \<Rightarrow> (if x = y then Some 0 else None))"

text \<open>
  The table after a reorder by \<open>ids\<close> counted from \<open>n\<close>: a row whose id is listed gets
  the position of its id (the last one, should the id be listed twice), every other
  row stays as it is.
\<close>

definition renumber_from :: "nat \<Rightarrow> string list \<Rightarrow> row list \<Rightarrow> row list" where
  "renumber_from n ids t =
     map (\<lambda>r. case last_pos ids (col_id r) of
                 None \<Rightarrow> r
               | Some j \<Rightarrow> r\<lparr>col_sortOrder := int (n + j)\<rparr>) t"

text \<open>The bucket \<open>(day, period)\<close> is dense: its \<open>sortOrder\<close> values, listed, are 0, 1, ..., n - 1.\<close>

definition dense :: "'a platform_scheme \<Rightarrow> store \<Rightarrow> Date \<Rightarrow> Period \<Rightarrow> bool" where
  "dense env s day p \<longleftrightarrow>
     (let tasks = list_tasks env (Some day) (Some p) s
      in map sortOrder tasks = map int [0..<length tasks])"

text \<open>
  The anchor of the previous bucket: one day, week or month back for \<open>days\<close>, \<open>weeks\<close>,
  \<open>months\<close>, and one year back for \<open>year\<close> and for any other period.
\<close>

definition previousAnchor :: "'a platform_scheme \<Rightarrow> Date \<Rightarrow> Period \<Rightarrow> Date" where
  "previousAnchor env day p =
     (if p = ''days'' then startOfDay env (subDays env day 1)
      else if p = ''weeks'' then startOfWeek env (subWeeks env day 1)
      else if p = ''months'' then startOfMonth env (subMonths env day 1)
      else startOfYear env (subYears env day 1))"

text \<open>
  The calendar's days partition the dates: a date that lies in the window of a day has
  that same window. It holds of date-fns, where the window of a day is its local
  calendar day without the last millisecond.
\<close>

definition day_windows :: "'a platform_scheme \<Rightarrow> bool" where
  "day_windows env \<longleftrightarrow> (\<forall>d x y. inDay env d x \<longrightarrow> inDay env x y = inDay env d y)"

text \<open>
  The rows that \<open>copyIncompletes\<close> appends for the tasks \<open>ts\<close>, given the number \<open>n\<close> of
  ids drawn so far and the table \<open>t\<close> so far: one row per task, with the task's name, the
  next id, and the \<open>sortOrder\<close> that \<open>create\<close> computes from the table at that moment.
\<close>

fun copied_rows :: "'a platform_scheme \<Rightarrow> Task list \<Rightarrow> Date \<Rightarrow> Period \<Rightarrow> nat \<Rightarrow> row list \<Rightarrow> row list" where
  "copied_rows env [] day p n t = []"
| "copied_rows env (task # rest) day p n t =
     (let r = \<lparr>col_id = nanoid env n, col_name = name task, col_complete = 0,
               col_sortOrder = int (length (filter (\<lambda>x. inDay env day (col_date x)) t)) + 1,
               col_period = p, col_date = startOfPeriod env day p\<rparr>
      in r # copied_rows env rest day p (Suc n) (t @ [r]))"

text \<open>The call returned: it did not throw.\<close>

definition returned :: "(error + 'a) \<times> store \<Rightarrow> bool" where
  "returned out = (case fst out of Inl e \<Rightarrow> False | Inr v \<Rightarrow> True)"

text \<open>The localStorage item holds the image of the database as it is now.\<close>

definition persisted :: "'a platform_scheme \<Rightarrow> store \<Rightarrow> bool" where
  "persisted env s \<longleftrightarrow> slot s = Some (JSON_stringify (map unat (db_export env (db s))))"

section \<open>Basic facts\<close>

lemma list_tasks_eq:
  "list_tasks env day p s = map toTask (sort_key col_sortOrder (filter (whereClause env day p) (db s)))"
  by (simp add: list_tasks_def exec_select_def Let_def)

lemma read_None_iff: "read i s = None \<longleftrightarrow> i \<notin> col_id ` set (db s)"
proof -
  have "filter (\<lambda>r. col_id r = i) (db s) = [] \<longleftrightarrow> i \<notin> col_id ` set (db s)"
    by (auto simp: filter_empty_conv)
  then show ?thesis
    by (cases "filter (\<lambda>r. col_id r = i) (db s)") (simp_all add: read_def)
qed

lemma checkExists_absent: "i \<notin> col_id ` set (db s) \<Longrightarrow> checkExists i s = Inl NotFound"
  using read_None_iff[of i s] by (simp add: checkExists_def)

lemma checkExists_present: "i \<in> col_id ` set (db s) \<Longrightarrow> \<exists>t. checkExists i s = Inr t"
  using read_None_iff[of i s] by (cases "read i s") (auto simp add: checkExists_def)

lemma updateOrder_forEach_ok:
  "set ids \<subseteq> S \<Longrightarrow> fst (updateOrder_forEach S ids n t) = None"
  by (induction ids arbitrary: n t) auto

lemma updateOrder_ok:
  "set ids \<subseteq> set (map id_task (list_tasks env (Some day) (Some p) s)) \<Longrightarrow>
    fst (updateOrder env day p ids s) = Inr ()"
  using updateOrder_forEach_ok[of ids "set (map id_task (list_tasks env (Some day) (Some p) s))" 0 "db s"]
  by (auto simp: updateOrder_def Let_def split: prod.splits option.splits)

lemma delete_present_ok:
  assumes "i \<in> col_id ` set (db s)"
  shows "fst (delete env i s) = Inr ()"
proof -
  obtain t where t: "checkExists i s = Inr t" using checkExists_present[OF assms] by blast
  let ?s1 = "s\<lparr>db := filter (\<lambda>r. col_id r \<noteq> i) (db s)\<rparr>"
  let ?tasks = "list_tasks env (Some (date t)) (Some (period t)) ?s1"
  have "fst (updateOrder env (date t) (period t)
          (map id_task (filter (\<lambda>x. id_task t \<noteq> id_task x) ?tasks)) ?s1) = Inr ()"
    by (rule updateOrder_ok) auto
  then show ?thesis
    by (auto simp: delete_def t Let_def split: prod.splits sum.splits)
qed

lemmas example_defs =
  example_store_def row_A_def row_B_def row_C_def day_2024_06_10_def morning_2024_06_10_def
  empty_store_def

lemmas utc_defs =
  utc_def utc_startOfDay_def utc_endOfDay_def utc_startOfWeek_def utc_startOfMonth_def
  utc_startOfYear_def utc_subMonths_def msPerDay_def utc_nanoid_def nanoid_alphabet_def
  civil_from_days_def days_from_civil_def

section \<open>Missing ids\<close>

text \<open>
  C7. For an id with no row, \<open>read\<close> returns the absent value (it has no error to
  raise), and \<open>update\<close>, \<open>markComplete\<close>, \<open>markIncomplete\<close> and \<open>delete\<close> each throw
  \<open>Not Found\<close> and leave the store as it was. For an id that has a row, none of the
  four throws \<open>Not Found\<close>.
\<close>

theorem missing_id_NotFound:
  "(i \<notin> col_id ` set (db s) \<longrightarrow>
      read i s = None \<and>
      update i nm s = (Inl NotFound, s) \<and>
      markComplete env i s = (Inl NotFound, s) \<and>
      markIncomplete env i s = (Inl NotFound, s) \<and>
      delete env i s = (Inl NotFound, s)) \<and>
   (i \<in> col_id ` set (db s) \<longrightarrow>
      read i s \<noteq> None \<and>
      fst (update i nm s) \<noteq> Inl NotFound \<and>
      fst (markComplete env i s) \<noteq> Inl NotFound \<and>
      fst (markIncomplete env i s) \<noteq> Inl NotFound \<and>
      fst (delete env i s) \<noteq> Inl NotFound)"
proof (intro conjI impI)
  assume a: "i \<notin> col_id ` set (db s)"
  note c = checkExists_absent[OF a]
  show "read i s = None" using a by (simp add: read_None_iff)
  show "update i nm s = (Inl NotFound, s)" by (simp add: update_def c)
  show "markComplete env i s = (Inl NotFound, s)" by (simp add: markComplete_def c)
  show "markIncomplete env i s = (Inl NotFound, s)" by (simp add: markIncomplete_def c)
  show "delete env i s = (Inl NotFound, s)" by (simp add: delete_def c)
next
  assume p: "i \<in> col_id ` set (db s)"
  then obtain t where c: "checkExists i s = Inr t" using checkExists_present by blast
  show "read i s \<noteq> None" using p by (simp add: read_None_iff)
  show "fst (update i nm s) \<noteq> Inl NotFound" by (simp add: update_def c Let_def)
  show "fst (markComplete env i s) \<noteq> Inl NotFound" by (simp add: markComplete_def c Let_def)
  show "fst (markIncomplete env i s) \<noteq> Inl NotFound" by (simp add: markIncomplete_def c Let_def)
  show "fst (delete env i s) \<noteq> Inl NotFound" by (simp add: delete_present_ok[OF p])
qed

theorem missing_id_NotFound_witness:
  "''2222222229'' \<notin> col_id ` set (db example_store) \<and>
   read ''2222222229'' example_store = None \<and>
   update ''2222222229'' ''D'' example_store = (Inl NotFound, example_store) \<and>
   markComplete utc ''2222222229'' example_store = (Inl NotFound, example_store) \<and>
   markIncomplete utc ''2222222229'' example_store = (Inl NotFound, example_store) \<and>
   delete utc ''2222222229'' example_store = (Inl NotFound, example_store) \<and>
   ''2222222223'' \<in> col_id ` set (db example_store) \<and>
   read ''2222222223'' example_store \<noteq> None \<and>
   fst (update ''2222222223'' ''D'' example_store) \<noteq> Inl NotFound \<and>
   fst (markComplete utc ''2222222223'' example_store) \<noteq> Inl NotFound \<and>
   fst (markIncomplete utc ''2222222223'' example_store) \<noteq> Inl NotFound \<and>
   fst (delete utc ''2222222223'' example_store) \<noteq> Inl NotFound"
proof -
  have a: "''2222222229'' \<notin> col_id ` set (db example_store)"
    by (simp add: example_defs)
  have p: "''2222222223'' \<in> col_id ` set (db example_store)"
    by (simp add: example_defs)
  show ?thesis
    using a p
      missing_id_NotFound[of "''2222222229''" example_store "''D''" utc]
      missing_id_NotFound[of "''2222222223''" example_store "''D''" utc]
    by blast
qed

section \<open>The reorder loop\<close>

lemma last_pos_None_iff: "last_pos xs x = None \<longleftrightarrow> x \<notin> set xs"
  by (induction xs) (auto split: option.splits)

lemma last_pos_SomeD: "last_pos xs x = Some j \<Longrightarrow> j < length xs \<and> xs ! j = x"
  by (induction xs arbitrary: j) (auto split: option.splits if_splits)

lemma last_pos_distinct: "distinct xs \<Longrightarrow> j < length xs \<Longrightarrow> last_pos xs (xs ! j) = Some j"
proof (induction xs arbitrary: j)
  case Nil
  then show ?case by simp
next
  case (Cons y ys)
  show ?case
  proof (cases j)
    case 0
    have "last_pos ys y = None" using Cons.prems by (simp add: last_pos_None_iff)
    then show ?thesis using 0 by simp
  next
    case (Suc k)
    then show ?thesis using Cons by simp
  qed
qed

lemma renumber_from_step:
  "renumber_from (Suc n) ids (set_sortOrder n i t) = renumber_from n (i # ids) t"
  by (auto simp: renumber_from_def set_sortOrder_def split: option.splits)

lemma updateOrder_forEach_renumber:
  "set ids \<subseteq> S \<Longrightarrow> updateOrder_forEach S ids n t = (None, renumber_from n ids t)"
proof (induction ids arbitrary: n t)
  case Nil
  then show ?case by (simp add: renumber_from_def)
next
  case (Cons i ids)
  then show ?case using renumber_from_step[of n ids i t] by simp
qed

lemma updateOrder_forEach_stop:
  "set pre \<subseteq> S \<Longrightarrow> x \<notin> S \<Longrightarrow>
   updateOrder_forEach S (pre @ x # post) n t = (Some (ValidationError x), renumber_from n pre t)"
proof (induction pre arbitrary: n t)
  case Nil
  then show ?case by (simp add: renumber_from_def)
next
  case (Cons i pre)
  then show ?case using renumber_from_step[of n pre i t] by simp
qed

lemma renumber_from_nth:
  assumes "k < length t"
  shows "(col_id (t ! k) \<notin> set ids \<longrightarrow> renumber_from n ids t ! k = t ! k) \<and>
         (\<forall>j<length ids. distinct ids \<and> ids ! j = col_id (t ! k) \<longrightarrow>
            renumber_from n ids t ! k = (t ! k)\<lparr>col_sortOrder := int (n + j)\<rparr>)"
proof (intro conjI impI allI)
  assume "col_id (t ! k) \<notin> set ids"
  then have "last_pos ids (col_id (t ! k)) = None" by (simp add: last_pos_None_iff)
  then show "renumber_from n ids t ! k = t ! k" using assms by (simp add: renumber_from_def)
next
  fix j assume "j < length ids" and h: "distinct ids \<and> ids ! j = col_id (t ! k)"
  then have "last_pos ids (col_id (t ! k)) = Some j" using last_pos_distinct[of ids j] by simp
  then show "renumber_from n ids t ! k = (t ! k)\<lparr>col_sortOrder := int (n + j)\<rparr>"
    using assms by (simp add: renumber_from_def)
qed

lemma updateOrder_subset:
  assumes "set ids \<subseteq> bucket_ids env day p s"
  shows "updateOrder env day p ids s = (Inr (), save env (s\<lparr>db := renumber_from 0 ids (db s)\<rparr>))"
  using updateOrder_forEach_renumber[OF assms, of 0 "db s"]
  by (simp add: updateOrder_def bucket_ids_def Let_def)

section \<open>The example bucket\<close>

lemma example_bucket:
  "list_tasks utc (Some morning_2024_06_10) (Some ''days'') example_store = [toTask row_A, toTask row_B, toTask row_C]"
  by (simp add: list_tasks_eq whereClause_def inDay_def example_defs utc_def utc_startOfDay_def utc_endOfDay_def msPerDay_def)

lemma example_bucket_ids:
  "bucket_ids utc morning_2024_06_10 ''days'' example_store = {''2222222222'', ''2222222223'', ''2222222224''}"
  by (auto simp add: bucket_ids_def example_bucket toTask_def row_A_def row_B_def row_C_def)


section \<open>Reordering with an id that is not in the bucket\<close>

text \<open>
  C1, amended. When some id of \<open>orderedIds\<close> is not in the bucket \<open>(day, period)\<close>,
  \<open>updateOrder\<close> throws the validation error that names the first such id. Nothing is
  saved: the localStorage item keeps its content. The rows whose ids come before that id
  in \<open>orderedIds\<close> have already been given their position as \<open>sortOrder\<close>; every other
  row is as before.
\<close>

theorem updateOrder_invalid_id:
  assumes "\<exists>i\<in>set orderedIds. i \<notin> bucket_ids env day p s"
  shows "updateOrder env day p orderedIds s =
           (Inl (ValidationError (hd (dropWhile (\<lambda>i. i \<in> bucket_ids env day p s) orderedIds))),
            s\<lparr>db := renumber_from 0 (takeWhile (\<lambda>i. i \<in> bucket_ids env day p s) orderedIds) (db s)\<rparr>) \<and>
         hd (dropWhile (\<lambda>i. i \<in> bucket_ids env day p s) orderedIds) \<in> set orderedIds \<and>
         hd (dropWhile (\<lambda>i. i \<in> bucket_ids env day p s) orderedIds) \<notin> bucket_ids env day p s"
proof -
  let ?B = "bucket_ids env day p s"
  let ?pre = "takeWhile (\<lambda>i. i \<in> ?B) orderedIds"
  let ?rest = "dropWhile (\<lambda>i. i \<in> ?B) orderedIds"
  have ne: "?rest \<noteq> []" using assms by (auto simp: dropWhile_eq_Nil_conv)
  then obtain x post where rest: "?rest = x # post" by (cases ?rest) auto
  have x: "x \<notin> ?B" using hd_dropWhile[OF ne] rest by simp
  have pre: "set ?pre \<subseteq> ?B" by (auto dest: set_takeWhileD)
  have split: "orderedIds = ?pre @ x # post" using takeWhile_dropWhile_id[of "\<lambda>i. i \<in> ?B" orderedIds] rest by simp
  have "updateOrder_forEach ?B orderedIds 0 (db s) = (Some (ValidationError x), renumber_from 0 ?pre (db s))"
    using updateOrder_forEach_stop[OF pre x, of post 0 "db s"] split by simp
  then have "updateOrder env day p orderedIds s = (Inl (ValidationError x), s\<lparr>db := renumber_from 0 ?pre (db s)\<rparr>)"
    by (simp add: updateOrder_def bucket_ids_def Let_def)
  moreover have "x \<in> set orderedIds" using split by (metis in_set_conv_decomp)
  ultimately show ?thesis using x rest by simp
qed


text \<open>
  The claim as stated fails: with the bucket A, B, C in the order 0, 1, 2, the call with
  the ids of C and of a task that does not exist throws, and C has moved to 0.
\<close>

lemma upd_ex:
  "updateOrder utc morning_2024_06_10 ''days'' [''2222222224'', ''2222222229''] example_store
     = (Inl (ValidationError ''2222222229''), example_store\<lparr>db := [row_A, row_B, row_C\<lparr>col_sortOrder := 0\<rparr>]\<rparr>)"
proof -
  have "updateOrder_forEach {''2222222222'', ''2222222223'', ''2222222224''} [''2222222224'', ''2222222229''] 0 [row_A, row_B, row_C]
     = (Some (ValidationError ''2222222229''), [row_A, row_B, row_C\<lparr>col_sortOrder := 0\<rparr>])"
    by (simp add: set_sortOrder_def row_A_def row_B_def row_C_def)
  moreover have "db example_store = [row_A, row_B, row_C]" by (simp add: example_store_def)
  ultimately show ?thesis
    using example_bucket_ids by (simp add: updateOrder_def Let_def bucket_ids_def)
qed

lemma after_ex:
  "list_tasks utc (Some morning_2024_06_10) (Some ''days'') (example_store\<lparr>db := [row_A, row_B, row_C\<lparr>col_sortOrder := 0\<rparr>]\<rparr>)
    = [toTask row_A, toTask (row_C\<lparr>col_sortOrder := 0\<rparr>), toTask row_B]"
  by (simp add: list_tasks_eq whereClause_def inDay_def example_defs utc_def utc_startOfDay_def utc_endOfDay_def msPerDay_def)

theorem updateOrder_invalid_id_counterexample:
  "''2222222229'' \<notin> bucket_ids utc morning_2024_06_10 ''days'' example_store \<and>
   fst (updateOrder utc morning_2024_06_10 ''days'' [''2222222224'', ''2222222229''] example_store)
     = Inl (ValidationError ''2222222229'') \<and>
   map (\<lambda>t. (name t, sortOrder t)) (list_tasks utc (Some morning_2024_06_10) (Some ''days'') example_store)
     = [(''A'', 0), (''B'', 1), (''C'', 2)] \<and>
   map (\<lambda>t. (name t, sortOrder t)) (list_tasks utc (Some morning_2024_06_10) (Some ''days'')
      (snd (updateOrder utc morning_2024_06_10 ''days'' [''2222222224'', ''2222222229''] example_store)))
     = [(''A'', 0), (''C'', 0), (''B'', 1)]"
  unfolding upd_ex snd_conv fst_conv after_ex example_bucket example_bucket_ids
  by (simp add: toTask_def row_A_def row_B_def row_C_def)


theorem updateOrder_invalid_id_witness:
  "''2222222229'' \<in> set [''2222222224'', ''2222222229''] \<and>
   ''2222222229'' \<notin> bucket_ids utc morning_2024_06_10 ''days'' example_store \<and>
   updateOrder utc morning_2024_06_10 ''days'' [''2222222224'', ''2222222229''] example_store =
     (Inl (ValidationError ''2222222229''),
      example_store\<lparr>db := [row_A, row_B, row_C\<lparr>col_sortOrder := 0\<rparr>]\<rparr>)"
proof -
  have h: "\<exists>i\<in>set [''2222222224'', ''2222222229'']. i \<notin> bucket_ids utc morning_2024_06_10 ''days'' example_store"
    by (simp add: example_bucket_ids)
  have r: "renumber_from 0 [''2222222224''] (db example_store) = [row_A, row_B, row_C\<lparr>col_sortOrder := 0\<rparr>]"
    by (simp add: renumber_from_def example_store_def row_A_def row_B_def row_C_def)
  show ?thesis
    using updateOrder_invalid_id[OF h] r by (simp add: example_bucket_ids)
qed

lemma partial_ex:
  "updateOrder utc morning_2024_06_10 ''days'' [''2222222224''] example_store
     = (Inr (), save utc (example_store\<lparr>db := [row_A, row_B, row_C\<lparr>col_sortOrder := 0\<rparr>]\<rparr>))"
proof -
  have r: "renumber_from 0 [''2222222224''] (db example_store) = [row_A, row_B, row_C\<lparr>col_sortOrder := 0\<rparr>]"
    by (simp add: renumber_from_def example_store_def row_A_def row_B_def row_C_def)
  show ?thesis
    using updateOrder_subset[of "[''2222222224'']" utc morning_2024_06_10 "''days''" example_store] r
    by (simp add: example_bucket_ids)
qed

lemma list_tasks_save [simp]: "list_tasks env day p (save env' s) = list_tasks env day p s"
  by (simp add: list_tasks_def save_def)

lemma partial_ex_not_dense:
  "set [''2222222224''] \<subset> bucket_ids utc morning_2024_06_10 ''days'' example_store \<and>
   distinct [''2222222224''] \<and>
   dense utc example_store morning_2024_06_10 ''days'' \<and>
   fst (updateOrder utc morning_2024_06_10 ''days'' [''2222222224''] example_store) = Inr () \<and>
   \<not> dense utc (snd (updateOrder utc morning_2024_06_10 ''days'' [''2222222224''] example_store)) morning_2024_06_10 ''days''"
  unfolding partial_ex snd_conv fst_conv dense_def list_tasks_save after_ex example_bucket example_bucket_ids
  by (auto simp add: toTask_def row_A_def row_B_def row_C_def upt_rec)

section \<open>Reordering a part of a bucket\<close>

text \<open>
  C10. \<open>updateOrder\<close> does not ask for the whole bucket. When every id of \<open>orderedIds\<close>
  is in the bucket, the call succeeds and saves; a row whose id is not listed keeps its
  row, and with no id listed twice the row of the j-th id gets \<open>sortOrder\<close> j. A call
  with a strict subset can leave a dense bucket with a repeated \<open>sortOrder\<close>.
\<close>

theorem updateOrder_partial:
  "(set ids \<subseteq> bucket_ids env day p s \<longrightarrow>
      updateOrder env day p ids s = (Inr (), save env (s\<lparr>db := renumber_from 0 ids (db s)\<rparr>)) \<and>
      (\<forall>k<length (db s).
         (col_id (db s ! k) \<notin> set ids \<longrightarrow>
            db (snd (updateOrder env day p ids s)) ! k = db s ! k) \<and>
         (\<forall>j<length ids. distinct ids \<and> ids ! j = col_id (db s ! k) \<longrightarrow>
            db (snd (updateOrder env day p ids s)) ! k = (db s ! k)\<lparr>col_sortOrder := int j\<rparr>))) \<and>
   (\<exists>s' day' p' ids'.
      set ids' \<subset> bucket_ids utc day' p' s' \<and> distinct ids' \<and> dense utc s' day' p' \<and>
      fst (updateOrder utc day' p' ids' s') = Inr () \<and>
      \<not> dense utc (snd (updateOrder utc day' p' ids' s')) day' p')"
proof (intro conjI impI)
  assume a: "set ids \<subseteq> bucket_ids env day p s"
  show e: "updateOrder env day p ids s = (Inr (), save env (s\<lparr>db := renumber_from 0 ids (db s)\<rparr>))"
    by (rule updateOrder_subset[OF a])
  have d: "db (snd (updateOrder env day p ids s)) = renumber_from 0 ids (db s)"
    by (simp add: e save_def)
  show "\<forall>k<length (db s).
         (col_id (db s ! k) \<notin> set ids \<longrightarrow>
            db (snd (updateOrder env day p ids s)) ! k = db s ! k) \<and>
         (\<forall>j<length ids. distinct ids \<and> ids ! j = col_id (db s ! k) \<longrightarrow>
            db (snd (updateOrder env day p ids s)) ! k = (db s ! k)\<lparr>col_sortOrder := int j\<rparr>)"
    unfolding d using renumber_from_nth[of _ "db s" ids 0] by simp
next
  show "\<exists>s' day' p' ids'.
      set ids' \<subset> bucket_ids utc day' p' s' \<and> distinct ids' \<and> dense utc s' day' p' \<and>
      fst (updateOrder utc day' p' ids' s') = Inr () \<and>
      \<not> dense utc (snd (updateOrder utc day' p' ids' s')) day' p'"
    using partial_ex_not_dense by blast
qed

theorem updateOrder_partial_witness:
  "set [''2222222224''] \<subseteq> bucket_ids utc morning_2024_06_10 ''days'' example_store \<and>
   updateOrder utc morning_2024_06_10 ''days'' [''2222222224''] example_store =
     (Inr (), save utc (example_store\<lparr>db := renumber_from 0 [''2222222224''] (db example_store)\<rparr>)) \<and>
   (0::nat) < length (db example_store) \<and>
   col_id (db example_store ! 0) \<notin> set [''2222222224''] \<and>
   db (snd (updateOrder utc morning_2024_06_10 ''days'' [''2222222224''] example_store)) ! 0 = row_A \<and>
   (2::nat) < length (db example_store) \<and> (0::nat) < length [''2222222224''] \<and>
   distinct [''2222222224''] \<and> [''2222222224''] ! 0 = col_id (db example_store ! 2) \<and>
   db (snd (updateOrder utc morning_2024_06_10 ''days'' [''2222222224''] example_store)) ! 2 =
     row_C\<lparr>col_sortOrder := 0\<rparr>"
proof -
  have a: "set [''2222222224''] \<subseteq> bucket_ids utc morning_2024_06_10 ''days'' example_store"
    by (simp add: example_bucket_ids)
  have l: "db example_store = [row_A, row_B, row_C]" by (simp add: example_store_def)
  have i: "col_id row_A = ''2222222222''" "col_id row_C = ''2222222224''"
    by (simp_all add: row_A_def row_C_def)
  note t = updateOrder_partial[of "[''2222222224'']" utc morning_2024_06_10 "''days''" example_store]
  from t a have 1: "updateOrder utc morning_2024_06_10 ''days'' [''2222222224''] example_store =
     (Inr (), save utc (example_store\<lparr>db := renumber_from 0 [''2222222224''] (db example_store)\<rparr>))"
    by blast
  from t a have 2: "\<forall>k<length (db example_store).
         (col_id (db example_store ! k) \<notin> set [''2222222224''] \<longrightarrow>
            db (snd (updateOrder utc morning_2024_06_10 ''days'' [''2222222224''] example_store)) ! k = db example_store ! k) \<and>
         (\<forall>j<length [''2222222224'']. distinct [''2222222224''] \<and> [''2222222224''] ! j = col_id (db example_store ! k) \<longrightarrow>
            db (snd (updateOrder utc morning_2024_06_10 ''days'' [''2222222224''] example_store)) ! k = (db example_store ! k)\<lparr>col_sortOrder := int j\<rparr>)"
    by blast
  have 3: "db (snd (updateOrder utc morning_2024_06_10 ''days'' [''2222222224''] example_store)) ! 0 = row_A"
    using 2[rule_format, of 0] by (simp add: l i)
  have 4: "db (snd (updateOrder utc morning_2024_06_10 ''days'' [''2222222224''] example_store)) ! 2 = row_C\<lparr>col_sortOrder := 0\<rparr>"
    using 2[rule_format, of 2] by (simp add: l i)
  show ?thesis using a 1 3 4 by (simp add: l i)
qed

section \<open>Listing a bucket\<close>

text \<open>
  C6. With a period that is not the empty string, \<open>list(day, period)\<close> returns the tasks
  of exactly the rows whose date lies in \<open>[startOfDay(day), endOfDay(day))\<close> and whose
  period is the given one, each as often as it is in the table, in ascending
  \<open>sortOrder\<close>. So every task returned is of that window and that period, and when no
  row matches the result is the empty list.
\<close>

theorem list_day_period:
  "p \<noteq> [] \<longrightarrow>
     mset (list_tasks env (Some day) (Some p) s) =
       image_mset toTask
         (filter_mset (\<lambda>r. startOfDay env day \<le> col_date r \<and> col_date r < endOfDay env day \<and> col_period r = p)
            (mset (db s))) \<and>
     sorted (map sortOrder (list_tasks env (Some day) (Some p) s)) \<and>
     (\<forall>t\<in>set (list_tasks env (Some day) (Some p) s).
        startOfDay env day \<le> date t \<and> date t < endOfDay env day \<and> period t = p) \<and>
     ((\<forall>r\<in>set (db s). \<not> (startOfDay env day \<le> col_date r \<and> col_date r < endOfDay env day \<and> col_period r = p)) \<longrightarrow>
        list_tasks env (Some day) (Some p) s = [])"
proof (intro impI conjI)
  assume p: "p \<noteq> []"
  let ?P = "\<lambda>r. startOfDay env day \<le> col_date r \<and> col_date r < endOfDay env day \<and> col_period r = p"
  have w: "whereClause env (Some day) (Some p) = ?P"
    using p by (auto simp: whereClause_def inDay_def fun_eq_iff)
  have l: "list_tasks env (Some day) (Some p) s = map toTask (sort_key col_sortOrder (filter ?P (db s)))"
    by (simp add: list_tasks_eq w)
  show "mset (list_tasks env (Some day) (Some p) s) = image_mset toTask (filter_mset ?P (mset (db s)))"
    by (simp add: l)
  have "map sortOrder (map toTask xs) = map col_sortOrder xs" for xs
    by (simp add: toTask_def)
  then show "sorted (map sortOrder (list_tasks env (Some day) (Some p) s))"
    by (simp add: l del: map_map)
  show "\<forall>t\<in>set (list_tasks env (Some day) (Some p) s).
        startOfDay env day \<le> date t \<and> date t < endOfDay env day \<and> period t = p"
    by (auto simp: l toTask_def)
  show "list_tasks env (Some day) (Some p) s = []"
    if "\<forall>r\<in>set (db s). \<not> ?P r"
  proof -
    have "filter ?P (db s) = []" using that by (simp add: filter_empty_conv)
    then show ?thesis by (simp add: l)
  qed
qed

theorem list_day_period_witness:
  "list_tasks utc (Some morning_2024_06_10) (Some ''days'') example_store =
     [toTask row_A, toTask row_B, toTask row_C] \<and>
   mset (list_tasks utc (Some morning_2024_06_10) (Some ''days'') example_store) =
     image_mset toTask (filter_mset (\<lambda>r. startOfDay utc morning_2024_06_10 \<le> col_date r \<and>
        col_date r < endOfDay utc morning_2024_06_10 \<and> col_period r = ''days'') (mset (db example_store))) \<and>
   sorted (map sortOrder (list_tasks utc (Some morning_2024_06_10) (Some ''days'') example_store)) \<and>
   startOfDay utc morning_2024_06_10 \<le> date (toTask row_B) \<and>
   date (toTask row_B) < endOfDay utc morning_2024_06_10 \<and> period (toTask row_B) = ''days'' \<and>
   list_tasks utc (Some morning_2024_06_10) (Some ''weeks'') example_store = []"
proof -
  have d: "''days'' \<noteq> []" and w: "''weeks'' \<noteq> []" by simp_all
  have n: "\<forall>r\<in>set (db example_store). \<not> (startOfDay utc morning_2024_06_10 \<le> col_date r \<and>
      col_date r < endOfDay utc morning_2024_06_10 \<and> col_period r = ''weeks'')"
    by (simp add: example_store_def row_A_def row_B_def row_C_def)
  have b: "toTask row_B \<in> set (list_tasks utc (Some morning_2024_06_10) (Some ''days'') example_store)"
    by (simp add: example_bucket)
  show ?thesis
    using list_day_period[of "''days''" utc morning_2024_06_10 example_store]
      list_day_period[of "''weeks''" utc morning_2024_06_10 example_store] d w n b example_bucket
    by blast
qed

section \<open>Creating a task\<close>

lemma list_tasks_draws [simp]: "list_tasks env day p (s\<lparr>draws := n\<rparr>) = list_tasks env day p s"
  by (simp add: list_tasks_def)

lemma read_fresh_append:
  "i \<notin> col_id ` set t \<Longrightarrow> col_id r = i \<Longrightarrow> read i (s\<lparr>db := t @ [r]\<rparr>) = Some (toTask r)"
proof -
  assume a: "i \<notin> col_id ` set t" and b: "col_id r = i"
  have "filter (\<lambda>x. col_id x = i) t = []" using a by (auto simp: filter_empty_conv)
  then show ?thesis using b by (simp add: read_def)
qed

lemma create_fresh:
  assumes "nanoid env (draws s) \<notin> col_id ` set (db s)"
  shows "create env nm day p s =
     (Inr (Some \<lparr>id_task = nanoid env (draws s), name = nm, complete = False,
                  sortOrder = int (length (list_tasks env (Some day) None s)) + 1,
                  period = p, date = startOfPeriod env day p\<rparr>),
      save env (s\<lparr>draws := Suc (draws s),
                  db := db s @ [\<lparr>col_id = nanoid env (draws s), col_name = nm, col_complete = 0,
                                 col_sortOrder = int (length (list_tasks env (Some day) None s)) + 1,
                                 col_period = p, col_date = startOfPeriod env day p\<rparr>]\<rparr>))"
proof -
  let ?r = "\<lparr>col_id = nanoid env (draws s), col_name = nm, col_complete = 0,
            col_sortOrder = int (length (list_tasks env (Some day) None s)) + 1,
            col_period = p, col_date = startOfPeriod env day p\<rparr>"
  have "read (nanoid env (draws s)) (save env (s\<lparr>draws := Suc (draws s), db := db s @ [?r]\<rparr>)) = Some (toTask ?r)"
    using read_fresh_append[OF assms, of ?r "s\<lparr>draws := Suc (draws s)\<rparr>"] by (simp add: read_def save_def)
  then show ?thesis using assms by (simp add: create_def Let_def toTask_def)
qed

text \<open>
  C3. When the id that \<open>generateId\<close> draws is not yet in the table, \<open>create(name, day,
  period)\<close> appends one row and returns it as read back: its \<open>sortOrder\<close> is the number of
  tasks of \<open>list(day)\<close>, of every period, plus one; its date is \<open>startOfPeriod(day,
  period)\<close>, which is \<open>startOfDay\<close>, \<open>startOfWeek\<close>, \<open>startOfMonth\<close> or \<open>startOfYear\<close> of the
  day for the four periods; it is not complete.
\<close>

theorem create_sortOrder_date:
  "(nanoid env (draws s) \<notin> col_id ` set (db s) \<longrightarrow>
      fst (create env nm day p s) =
        Inr (Some \<lparr>id_task = nanoid env (draws s), name = nm, complete = False,
                    sortOrder = int (length (list_tasks env (Some day) None s)) + 1,
                    period = p, date = startOfPeriod env day p\<rparr>) \<and>
      fst (create env nm day p s) = Inr (read (nanoid env (draws s)) (snd (create env nm day p s))) \<and>
      db (snd (create env nm day p s)) =
        db s @ [\<lparr>col_id = nanoid env (draws s), col_name = nm, col_complete = 0,
                  col_sortOrder = int (length (list_tasks env (Some day) None s)) + 1,
                  col_period = p, col_date = startOfPeriod env day p\<rparr>]) \<and>
   length (list_tasks env (Some day) None s) =
     length (filter (\<lambda>r. startOfDay env day \<le> col_date r \<and> col_date r < endOfDay env day) (db s)) \<and>
   startOfPeriod env day ''days'' = startOfDay env day \<and>
   startOfPeriod env day ''weeks'' = startOfWeek env day \<and>
   startOfPeriod env day ''months'' = startOfMonth env day \<and>
   startOfPeriod env day ''year'' = startOfYear env day"
proof (intro conjI impI)
  assume a: "nanoid env (draws s) \<notin> col_id ` set (db s)"
  note c = create_fresh[OF a, of nm day p]
  show "fst (create env nm day p s) =
        Inr (Some \<lparr>id_task = nanoid env (draws s), name = nm, complete = False,
                    sortOrder = int (length (list_tasks env (Some day) None s)) + 1,
                    period = p, date = startOfPeriod env day p\<rparr>)"
    by (simp add: c)
  show "db (snd (create env nm day p s)) =
        db s @ [\<lparr>col_id = nanoid env (draws s), col_name = nm, col_complete = 0,
                  col_sortOrder = int (length (list_tasks env (Some day) None s)) + 1,
                  col_period = p, col_date = startOfPeriod env day p\<rparr>]"
    by (simp add: c save_def)
  show "fst (create env nm day p s) = Inr (read (nanoid env (draws s)) (snd (create env nm day p s)))"
    using a by (simp add: create_def Let_def)
next
  show "length (list_tasks env (Some day) None s) =
     length (filter (\<lambda>r. startOfDay env day \<le> col_date r \<and> col_date r < endOfDay env day) (db s))"
  proof -
    have "whereClause env (Some day) None =
        (\<lambda>r. startOfDay env day \<le> col_date r \<and> col_date r < endOfDay env day)"
      by (simp add: whereClause_def inDay_def fun_eq_iff)
    then show ?thesis by (simp add: list_tasks_eq)
  qed
qed (simp_all add: startOfPeriod_def)

theorem create_sortOrder_date_witness:
  "nanoid utc (draws example_store) \<notin> col_id ` set (db example_store) \<and>
   fst (create utc ''D'' morning_2024_06_10 ''weeks'' example_store) =
     Inr (Some \<lparr>id_task = ''2222222225'', name = ''D'', complete = False, sortOrder = 4,
                 period = ''weeks'', date = 1717891200000\<rparr>) \<and>
   fst (create utc ''D'' morning_2024_06_10 ''weeks'' example_store) =
     Inr (read ''2222222225'' (snd (create utc ''D'' morning_2024_06_10 ''weeks'' example_store))) \<and>
   db (snd (create utc ''D'' morning_2024_06_10 ''weeks'' example_store)) =
     [row_A, row_B, row_C,
      \<lparr>col_id = ''2222222225'', col_name = ''D'', col_complete = 0, col_sortOrder = 4,
       col_period = ''weeks'', col_date = 1717891200000\<rparr>]"
proof -
  have i: "nanoid utc (draws example_store) = ''2222222225''"
    by (simp add: utc_def utc_nanoid_def nanoid_alphabet_def example_store_def)
  have a: "nanoid utc (draws example_store) \<notin> col_id ` set (db example_store)"
    unfolding i by (simp add: example_store_def row_A_def row_B_def row_C_def)
  have l: "length (list_tasks utc (Some morning_2024_06_10) None example_store) = 3"
    by (simp add: list_tasks_eq whereClause_def inDay_def example_defs utc_def utc_startOfDay_def
        utc_endOfDay_def msPerDay_def)
  have d: "startOfPeriod utc morning_2024_06_10 ''weeks'' = 1717891200000"
    by (simp add: startOfPeriod_def utc_def utc_startOfWeek_def msPerDay_def morning_2024_06_10_def)
  have e: "db example_store = [row_A, row_B, row_C]" by (simp add: example_store_def)
  note t = create_sortOrder_date[of utc example_store "''D''" morning_2024_06_10 "''weeks''",
      unfolded i l d e]
  have n: "''2222222225'' \<notin> col_id ` set [row_A, row_B, row_C]"
    using a unfolding i e .
  from t n have 1: "fst (create utc ''D'' morning_2024_06_10 ''weeks'' example_store) =
     Inr (Some \<lparr>id_task = ''2222222225'', name = ''D'', complete = False, sortOrder = int 3 + 1,
                 period = ''weeks'', date = 1717891200000\<rparr>)"
    by blast
  from t n have 2: "fst (create utc ''D'' morning_2024_06_10 ''weeks'' example_store) =
     Inr (read ''2222222225'' (snd (create utc ''D'' morning_2024_06_10 ''weeks'' example_store)))"
    by blast
  from t n have 3: "db (snd (create utc ''D'' morning_2024_06_10 ''weeks'' example_store)) =
     [row_A, row_B, row_C] @
      [\<lparr>col_id = ''2222222225'', col_name = ''D'', col_complete = 0, col_sortOrder = int 3 + 1,
       col_period = ''weeks'', col_date = 1717891200000\<rparr>]"
    by blast
  show ?thesis
    unfolding i e using n 1 2 3 by simp
qed

section \<open>What is saved\<close>

lemma persisted_save [simp]: "persisted env (save env s)"
  by (simp add: persisted_def save_def)

lemma copyIncompletes_eq:
  "copyIncompletes env day p s =
     (case create_each env (filter (\<lambda>t. \<not> complete t)
              (list_tasks env (Some (previousAnchor env day p)) (Some p) s)) day p s of
        (Some e, s1) \<Rightarrow> (Inl e, s1)
      | (None, s1) \<Rightarrow> (Inr (), save env s1))"
  by (simp add: copyIncompletes_def previousAnchor_def Let_def)

lemma create_persisted: "returned (create env nm day p s) \<Longrightarrow> persisted env (snd (create env nm day p s))"
  by (auto simp: create_def Let_def returned_def split: if_splits)

lemma markComplete_persisted: "returned (markComplete env i s) \<Longrightarrow> persisted env (snd (markComplete env i s))"
  by (auto simp: markComplete_def Let_def returned_def split: sum.splits)

lemma markIncomplete_persisted: "returned (markIncomplete env i s) \<Longrightarrow> persisted env (snd (markIncomplete env i s))"
  by (auto simp: markIncomplete_def Let_def returned_def split: sum.splits)

lemma updateOrder_persisted: "returned (updateOrder env day p ids s) \<Longrightarrow> persisted env (snd (updateOrder env day p ids s))"
  by (auto simp: updateOrder_def Let_def returned_def split: prod.splits option.splits)

lemma delete_persisted: "returned (delete env i s) \<Longrightarrow> persisted env (snd (delete env i s))"
  by (auto simp: delete_def Let_def returned_def split: sum.splits prod.splits)

lemma copyIncompletes_persisted:
  "returned (copyIncompletes env day p s) \<Longrightarrow> persisted env (snd (copyIncompletes env day p s))"
  by (auto simp: copyIncompletes_eq returned_def split: prod.splits option.splits)

lemma update_slot: "slot (snd (update i nm s)) = slot s"
  by (auto simp: update_def Let_def split: sum.splits)

lemma update_db:
  "returned (update i nm s) \<Longrightarrow>
   db (snd (update i nm s)) = map (\<lambda>r. if col_id r = i then r\<lparr>col_name := nm\<rparr> else r) (db s)"
  by (auto simp: update_def Let_def returned_def split: sum.splits)

text \<open>
  C4. Each of \<open>create\<close>, \<open>markComplete\<close>, \<open>markIncomplete\<close>, \<open>delete\<close>, \<open>copyIncompletes\<close>,
  \<open>clearPeriod\<close> and \<open>updateOrder\<close>, when it returns, leaves in the localStorage item the
  image of the whole database as the call left it. \<open>update\<close> is the exception: when it
  returns it has renamed the row in the database, and the localStorage item has the
  content it had before the call.
\<close>

theorem mutations_persist:
  "(returned (create env nm day p s) \<longrightarrow> persisted env (snd (create env nm day p s))) \<and>
   (returned (markComplete env i s) \<longrightarrow> persisted env (snd (markComplete env i s))) \<and>
   (returned (markIncomplete env i s) \<longrightarrow> persisted env (snd (markIncomplete env i s))) \<and>
   (returned (delete env i s) \<longrightarrow> persisted env (snd (delete env i s))) \<and>
   (returned (copyIncompletes env day p s) \<longrightarrow> persisted env (snd (copyIncompletes env day p s))) \<and>
   persisted env (clearPeriod env day p s) \<and>
   (returned (updateOrder env day p ids s) \<longrightarrow> persisted env (snd (updateOrder env day p ids s))) \<and>
   slot (snd (update i nm s)) = slot s \<and>
   (returned (update i nm s) \<longrightarrow>
      db (snd (update i nm s)) = map (\<lambda>r. if col_id r = i then r\<lparr>col_name := nm\<rparr> else r) (db s))"
proof (intro conjI impI)
  show "persisted env (clearPeriod env day p s)" by (simp add: clearPeriod_def)
qed (simp_all only: create_persisted markComplete_persisted markIncomplete_persisted delete_persisted
    copyIncompletes_persisted updateOrder_persisted update_slot update_db)

lemma example_returns:
  "returned (create utc ''D'' morning_2024_06_10 ''days'' example_store)"
  "returned (markComplete utc ''2222222222'' example_store)"
  "returned (markIncomplete utc ''2222222223'' example_store)"
  "returned (delete utc ''2222222223'' example_store)"
  "returned (updateOrder utc morning_2024_06_10 ''days'' [''2222222224'', ''2222222223'', ''2222222222''] example_store)"
  "returned (update ''2222222223'' ''D'' example_store)"
proof -
  have i: "nanoid utc (draws example_store) \<notin> col_id ` set (db example_store)"
    by (simp add: utc_def utc_nanoid_def nanoid_alphabet_def example_store_def row_A_def row_B_def row_C_def)
  show "returned (create utc ''D'' morning_2024_06_10 ''days'' example_store)"
    by (simp add: create_fresh[OF i] returned_def)
  have a: "''2222222222'' \<in> col_id ` set (db example_store)" and b: "''2222222223'' \<in> col_id ` set (db example_store)"
    by (simp_all add: example_store_def row_A_def row_B_def row_C_def)
  from checkExists_present[OF a] show "returned (markComplete utc ''2222222222'' example_store)"
    by (auto simp: markComplete_def returned_def Let_def)
  from checkExists_present[OF b] show "returned (markIncomplete utc ''2222222223'' example_store)"
    by (auto simp: markIncomplete_def returned_def Let_def)
  from checkExists_present[OF b] show "returned (update ''2222222223'' ''D'' example_store)"
    by (auto simp: update_def returned_def Let_def)
  show "returned (delete utc ''2222222223'' example_store)"
    by (simp add: delete_present_ok[OF b] returned_def)
  show "returned (updateOrder utc morning_2024_06_10 ''days'' [''2222222224'', ''2222222223'', ''2222222222''] example_store)"
    by (simp add: updateOrder_subset example_bucket_ids returned_def)
qed

lemma example_copy_returns:
  "returned (copyIncompletes utc morning_2024_06_10 ''days'' example_store)"
proof -
  have "list_tasks utc (Some (previousAnchor utc morning_2024_06_10 ''days'')) (Some ''days'') example_store = []"
    by (simp add: list_tasks_eq whereClause_def inDay_def example_defs utc_def utc_startOfDay_def
        utc_endOfDay_def msPerDay_def previousAnchor_def)
  then show ?thesis by (simp add: copyIncompletes_eq returned_def)
qed

theorem mutations_persist_witness:
  "persisted utc (snd (create utc ''D'' morning_2024_06_10 ''days'' example_store)) \<and>
   persisted utc (snd (markComplete utc ''2222222222'' example_store)) \<and>
   persisted utc (snd (markIncomplete utc ''2222222223'' example_store)) \<and>
   persisted utc (snd (delete utc ''2222222223'' example_store)) \<and>
   persisted utc (snd (copyIncompletes utc morning_2024_06_10 ''days'' example_store)) \<and>
   persisted utc (clearPeriod utc morning_2024_06_10 ''days'' example_store) \<and>
   persisted utc (snd (updateOrder utc morning_2024_06_10 ''days''
      [''2222222224'', ''2222222223'', ''2222222222''] example_store)) \<and>
   slot (snd (update ''2222222223'' ''D'' example_store)) = None \<and>
   db (snd (update ''2222222223'' ''D'' example_store)) = [row_A, row_B\<lparr>col_name := ''D''\<rparr>, row_C]"
proof -
  have r: "map (\<lambda>r. if col_id r = ''2222222223'' then r\<lparr>col_name := ''D''\<rparr> else r) (db example_store) =
      [row_A, row_B\<lparr>col_name := ''D''\<rparr>, row_C]"
    by (simp add: example_store_def row_A_def row_B_def row_C_def)
  have s: "slot example_store = None" by (simp add: example_store_def)
  note t1 = mutations_persist[of utc "''D''" morning_2024_06_10 "''days''" example_store "''2222222222''"
        "[''2222222224'', ''2222222223'', ''2222222222'']"]
  note t2 = mutations_persist[of utc "''D''" morning_2024_06_10 "''days''" example_store "''2222222223''"
        "[''2222222224'', ''2222222223'', ''2222222222'']", unfolded r s]
  have 1: "persisted utc (snd (create utc ''D'' morning_2024_06_10 ''days'' example_store))"
    using t1 example_returns(1) by simp
  have 2: "persisted utc (snd (markComplete utc ''2222222222'' example_store))"
    using t1 example_returns(2) by simp
  have 3: "persisted utc (snd (markIncomplete utc ''2222222223'' example_store))"
    using t2 example_returns(3) by simp
  have 4: "persisted utc (snd (delete utc ''2222222223'' example_store))"
    using t2 example_returns(4) by simp
  have 5: "persisted utc (snd (copyIncompletes utc morning_2024_06_10 ''days'' example_store))"
    using t1 example_copy_returns by simp
  have 6: "persisted utc (clearPeriod utc morning_2024_06_10 ''days'' example_store)"
    using t1 by simp
  have 7: "persisted utc (snd (updateOrder utc morning_2024_06_10 ''days''
      [''2222222224'', ''2222222223'', ''2222222222''] example_store))"
    using t1 example_returns(5) by simp
  have 8: "slot (snd (update ''2222222223'' ''D'' example_store)) = None"
    using t2 by simp
  have 9: "db (snd (update ''2222222223'' ''D'' example_store)) = [row_A, row_B\<lparr>col_name := ''D''\<rparr>, row_C]"
    using t2 example_returns(6) by simp
  show ?thesis
    using 1 2 3 4 5 6 7 8 9 by simp
qed

section \<open>The listing after a reorder of the whole bucket\<close>

lemma whereClause_sortOrder [simp]:
  "whereClause env day p (r\<lparr>col_sortOrder := k\<rparr>) = whereClause env day p r"
  by (simp add: whereClause_def split: option.splits)

lemma renumber_from_filter:
  assumes "\<And>r k. W (r\<lparr>col_sortOrder := k\<rparr>) = W r"
  shows "filter W (renumber_from n ids t) = renumber_from n ids (filter W t)"
proof -
  have "W (case last_pos ids (col_id r) of None \<Rightarrow> r | Some j \<Rightarrow> r\<lparr>col_sortOrder := int (n + j)\<rparr>) = W r" for r
    using assms by (simp split: option.splits)
  then show ?thesis
    by (simp add: renumber_from_def filter_map o_def)
qed

lemma renumber_from_own_ids:
  assumes "distinct (map col_id L)"
  shows "renumber_from 0 (map col_id L) L = map2 (\<lambda>k r. r\<lparr>col_sortOrder := int k\<rparr>) [0..<length L] L"
proof (rule nth_equalityI)
  show "length (renumber_from 0 (map col_id L) L) = length (map2 (\<lambda>k r. r\<lparr>col_sortOrder := int k\<rparr>) [0..<length L] L)"
    by (simp add: renumber_from_def)
next
  fix k assume "k < length (renumber_from 0 (map col_id L) L)"
  then have k: "k < length L" by (simp add: renumber_from_def)
  have "last_pos (map col_id L) (col_id (L ! k)) = Some k"
    using last_pos_distinct[OF assms, of k] k by simp
  then show "renumber_from 0 (map col_id L) L ! k = map2 (\<lambda>k r. r\<lparr>col_sortOrder := int k\<rparr>) [0..<length L] L ! k"
    using k by (simp add: renumber_from_def)
qed

lemma renumber_from_mset:
  "mset xs = mset ys \<Longrightarrow> mset (renumber_from n ids xs) = mset (renumber_from n ids ys)"
  by (simp add: renumber_from_def)

lemma sortOrder_map2:
  "map col_sortOrder (map2 (\<lambda>k r. r\<lparr>col_sortOrder := int k\<rparr>) [0..<length L] L) = map int [0..<length L]"
  by (rule nth_equalityI) simp_all

lemma renumbered_listing:
  assumes d: "distinct (map col_id L)"
      and m: "mset L = mset (filter W t)"
      and w: "\<And>r k. W (r\<lparr>col_sortOrder := k\<rparr>) = W r"
  shows "sort_key col_sortOrder (filter W (renumber_from 0 (map col_id L) t)) =
           map2 (\<lambda>k r. r\<lparr>col_sortOrder := int k\<rparr>) [0..<length L] L"
proof (rule sort_key_inj_key_eq)
  let ?ys = "map2 (\<lambda>k r. r\<lparr>col_sortOrder := int k\<rparr>) [0..<length L] L"
  have so: "map col_sortOrder ?ys = map int [0..<length L]" by (rule sortOrder_map2)
  show ms: "mset (filter W (renumber_from 0 (map col_id L) t)) = mset ?ys"
    using renumber_from_mset[OF m[symmetric], of 0 "map col_id L"]
    by (simp add: renumber_from_filter[of W, OF w] renumber_from_own_ids[OF d])
  show "sorted (map col_sortOrder ?ys)"
    unfolding so by (simp add: sorted_map strict_mono_on_def sorted_wrt_map)
  have "distinct (map col_sortOrder ?ys)"
    unfolding so by (simp add: distinct_map inj_on_def)
  then have "inj_on col_sortOrder (set ?ys)" using distinct_map[of col_sortOrder ?ys] by blast
  then show "inj_on col_sortOrder (set (filter W (renumber_from 0 (map col_id L) t)))"
    using mset_eq_setD[OF ms] by simp
qed


section \<open>Deleting a task\<close>

lemma read_SomeD: "read i s = Some t \<Longrightarrow> id_task t = i \<and> i \<in> col_id ` set (db s)"
proof -
  assume a: "read i s = Some t"
  then obtain r rs where f: "filter (\<lambda>r. col_id r = i) (db s) = r # rs" and t: "t = toTask r"
    by (auto simp: read_def split: list.splits)
  have "r \<in> set (filter (\<lambda>r. col_id r = i) (db s))" by (simp add: f)
  then show ?thesis using t by (auto simp: toTask_def)
qed

lemma save_save [simp]: "save env (save env s) = save env s"
  by (simp add: save_def)

lemma db_save [simp]: "db (save env s) = db s"
  by (simp add: save_def)

lemma id_task_toTask: "map id_task (map toTask xs) = map col_id xs"
  by (simp add: toTask_def)

lemma sortOrder_toTask: "map sortOrder (map toTask xs) = map col_sortOrder xs"
  by (simp add: toTask_def)

lemma delete_eq:
  assumes "read i s = Some t"
  shows "delete env i s =
     (Inr (), save env (s\<lparr>db := renumber_from 0
        (map col_id (sort_key col_sortOrder
           (filter (whereClause env (Some (date t)) (Some (period t)))
              (filter (\<lambda>r. col_id r \<noteq> i) (db s)))))
        (filter (\<lambda>r. col_id r \<noteq> i) (db s))\<rparr>))"
proof -
  let ?s1 = "s\<lparr>db := filter (\<lambda>r. col_id r \<noteq> i) (db s)\<rparr>"
  let ?L1 = "sort_key col_sortOrder (filter (whereClause env (Some (date t)) (Some (period t))) (db ?s1))"
  let ?tasks = "list_tasks env (Some (date t)) (Some (period t)) ?s1"
  have c: "checkExists i s = Inr t" using assms by (simp add: checkExists_def)
  have i: "id_task t = i" using read_SomeD[OF assms] by simp
  have tl: "?tasks = map toTask ?L1" by (simp add: list_tasks_eq)
  have "\<forall>x\<in>set ?tasks. id_task x \<noteq> i" unfolding tl by (auto simp: toTask_def)
  then have f: "filter (\<lambda>x. id_task t \<noteq> id_task x) ?tasks = ?tasks"
    using i by (auto simp: filter_id_conv)
  have ids: "map id_task ?tasks = map col_id ?L1" unfolding tl by (rule id_task_toTask)
  have sub: "set (map col_id ?L1) \<subseteq> bucket_ids env (date t) (period t) ?s1"
    unfolding bucket_ids_def ids by simp
  have "delete env i s = (case updateOrder env (date t) (period t) (map col_id ?L1) ?s1 of
           (Inl e, s2) \<Rightarrow> (Inl e, s2)
         | (Inr _, s2) \<Rightarrow> (Inr (), save env s2))"
    unfolding delete_def c Let_def using f ids by simp
  then show ?thesis
    unfolding updateOrder_subset[OF sub] by (simp del: filter_filter)
qed

lemma distinct_map_sort_filter:
  "distinct (map f xs) \<Longrightarrow> distinct (map f (sort_key g (filter P xs)))"
proof -
  assume "distinct (map f xs)"
  then have "distinct (map f (filter P xs))" by (rule distinct_map_filter)
  moreover have "mset (map f (sort_key g (filter P xs))) = mset (map f (filter P xs))" by simp
  ultimately show ?thesis by (metis mset_eq_imp_distinct_iff)
qed

lemma toTask_map2:
  "map toTask (map2 (\<lambda>k r. r\<lparr>col_sortOrder := int k\<rparr>) [0..<length L] L) =
   map2 (\<lambda>k x. x\<lparr>sortOrder := int k\<rparr>) [0..<length (map toTask L)] (map toTask L)"
  by (rule nth_equalityI) (simp_all add: toTask_def)

lemma delete_listing:
  assumes d: "distinct (map col_id (db s))" and r: "read i s = Some t"
  shows "list_tasks env (Some (date t)) (Some (period t)) (snd (delete env i s)) =
     map2 (\<lambda>k x. x\<lparr>sortOrder := int k\<rparr>)
       [0..<length (filter (\<lambda>x. id_task x \<noteq> i) (list_tasks env (Some (date t)) (Some (period t)) s))]
       (filter (\<lambda>x. id_task x \<noteq> i) (list_tasks env (Some (date t)) (Some (period t)) s))"
proof -
  let ?W = "whereClause env (Some (date t)) (Some (period t))"
  let ?t1 = "filter (\<lambda>r. col_id r \<noteq> i) (db s)"
  let ?L1 = "sort_key col_sortOrder (filter ?W ?t1)"
  have dl: "distinct (map col_id ?L1)"
    by (intro distinct_map_sort_filter distinct_map_filter d)
  have after: "list_tasks env (Some (date t)) (Some (period t)) (snd (delete env i s)) =
      map toTask (map2 (\<lambda>k r. r\<lparr>col_sortOrder := int k\<rparr>) [0..<length ?L1] ?L1)"
    unfolding delete_eq[OF r] snd_conv list_tasks_eq db_save
    using renumbered_listing[of ?L1 ?W ?t1, OF dl] by simp
  have "?L1 = filter (\<lambda>r. col_id r \<noteq> i) (sort_key col_sortOrder (filter ?W (db s)))"
    by (simp add: filter_sort conj_commute)
  then have "map toTask ?L1 = filter (\<lambda>x. id_task x \<noteq> i) (list_tasks env (Some (date t)) (Some (period t)) s)"
    by (simp add: list_tasks_eq filter_map o_def toTask_def)
  then show ?thesis unfolding after toTask_map2 by simp
qed


lemma distinct_ids_list_tasks:
  "distinct (map col_id (db s)) \<Longrightarrow> distinct (map id_task (list_tasks env day p s))"
  unfolding list_tasks_eq id_task_toTask by (rule distinct_map_sort_filter)

lemma length_filter_other:
  assumes "distinct (map f xs)" and "x \<in> set xs"
  shows "length (filter (\<lambda>y. f y \<noteq> f x) xs) = length xs - 1"
proof -
  have d: "distinct xs" and inj: "inj_on f (set xs)" using assms(1) by (auto simp: distinct_map)
  have "{y. f y = f x} \<inter> set xs = {x}" using inj assms(2) by (auto dest: inj_onD)
  then have "length (filter (\<lambda>y. f y = f x) xs) = 1"
    using distinct_length_filter[OF d, of "\<lambda>y. f y = f x"] by simp
  then show ?thesis
    using sum_length_filter_compl[of "\<lambda>y. f y = f x" xs] by simp
qed

lemma map2_sortOrder:
  "map sortOrder (map2 (\<lambda>k x. x\<lparr>sortOrder := int k\<rparr>) [0..<length xs] xs) = map int [0..<length xs]"
  by (rule nth_equalityI) simp_all

lemma map2_id_task:
  "map id_task (map2 (\<lambda>k x. x\<lparr>sortOrder := int k\<rparr>) [0..<length xs] xs) = map id_task xs"
  by (rule nth_equalityI) simp_all

text \<open>
  C5. In a table with unique ids, let a task be listed in its own bucket: the listing of
  its date and period. When the \<open>sortOrder\<close> values of that bucket are 0, ..., n - 1,
  \<open>delete\<close> of the task returns, and the bucket then lists the n - 1 other tasks, in the
  order they had, with the \<open>sortOrder\<close> values 0, ..., n - 2.
\<close>

theorem delete_keeps_dense:
  assumes "distinct (map col_id (db s))"
      and "read i s = Some t"
      and "t \<in> set (list_tasks env (Some (date t)) (Some (period t)) s)"
      and "dense env s (date t) (period t)"
  shows "fst (delete env i s) = Inr () \<and>
         length (list_tasks env (Some (date t)) (Some (period t)) (snd (delete env i s))) =
           length (list_tasks env (Some (date t)) (Some (period t)) s) - 1 \<and>
         dense env (snd (delete env i s)) (date t) (period t) \<and>
         map id_task (list_tasks env (Some (date t)) (Some (period t)) (snd (delete env i s))) =
           filter (\<lambda>j. j \<noteq> i) (map id_task (list_tasks env (Some (date t)) (Some (period t)) s)) \<and>
         list_tasks env (Some (date t)) (Some (period t)) (snd (delete env i s)) =
           map2 (\<lambda>k x. x\<lparr>sortOrder := int k\<rparr>)
             [0..<length (list_tasks env (Some (date t)) (Some (period t)) s) - 1]
             (filter (\<lambda>x. id_task x \<noteq> i) (list_tasks env (Some (date t)) (Some (period t)) s))"
proof -
  let ?B = "list_tasks env (Some (date t)) (Some (period t)) s"
  let ?B' = "filter (\<lambda>x. id_task x \<noteq> i) ?B"
  let ?A = "list_tasks env (Some (date t)) (Some (period t)) (snd (delete env i s))"
  have i: "id_task t = i" using read_SomeD[OF assms(2)] by simp
  have a: "?A = map2 (\<lambda>k x. x\<lparr>sortOrder := int k\<rparr>) [0..<length ?B'] ?B'"
    by (rule delete_listing[OF assms(1,2)])
  have n: "length ?B' = length ?B - 1"
    using length_filter_other[OF distinct_ids_list_tasks[OF assms(1)] assms(3)] i by simp
  have la: "length ?A = length ?B'" unfolding a by simp
  have 1: "fst (delete env i s) = Inr ()" by (simp add: delete_eq[OF assms(2)])
  have 2: "length ?A = length ?B - 1" using la n by simp
  have 3: "dense env (snd (delete env i s)) (date t) (period t)"
    unfolding dense_def Let_def la unfolding a by (rule map2_sortOrder)
  have 4: "map id_task ?A = filter (\<lambda>j. j \<noteq> i) (map id_task ?B)"
    unfolding a map2_id_task by (simp add: filter_map o_def)
  have 5: "?A = map2 (\<lambda>k x. x\<lparr>sortOrder := int k\<rparr>) [0..<length ?B - 1] ?B'"
    using a n by simp
  show ?thesis using 1 2 3 4 5 by blast
qed

lemma example_dense: "dense utc example_store day_2024_06_10 ''days''"
  by (simp add: dense_def list_tasks_eq whereClause_def inDay_def example_defs utc_def utc_startOfDay_def
      utc_endOfDay_def msPerDay_def toTask_def upt_rec)

lemma read_example_B: "read ''2222222223'' example_store = Some (toTask row_B)"
  by (simp add: read_def example_store_def row_A_def row_B_def row_C_def)

theorem delete_keeps_dense_witness:
  "distinct (map col_id (db example_store)) \<and>
   read ''2222222223'' example_store = Some (toTask row_B) \<and>
   toTask row_B \<in> set (list_tasks utc (Some day_2024_06_10) (Some ''days'') example_store) \<and>
   dense utc example_store day_2024_06_10 ''days'' \<and>
   fst (delete utc ''2222222223'' example_store) = Inr () \<and>
   dense utc (snd (delete utc ''2222222223'' example_store)) day_2024_06_10 ''days'' \<and>
   list_tasks utc (Some day_2024_06_10) (Some ''days'') (snd (delete utc ''2222222223'' example_store)) =
     [toTask row_A, toTask (row_C\<lparr>col_sortOrder := 1\<rparr>)]"
proof -
  have d: "distinct (map col_id (db example_store))"
    by (simp add: example_store_def row_A_def row_B_def row_C_def)
  have dt: "date (toTask row_B) = day_2024_06_10" "period (toTask row_B) = ''days''"
    by (simp_all add: toTask_def row_B_def)
  have b: "list_tasks utc (Some day_2024_06_10) (Some ''days'') example_store =
      [toTask row_A, toTask row_B, toTask row_C]"
    by (simp add: list_tasks_eq whereClause_def inDay_def example_defs utc_def utc_startOfDay_def
        utc_endOfDay_def msPerDay_def)
  have m: "toTask row_B \<in> set (list_tasks utc (Some (date (toTask row_B))) (Some (period (toTask row_B))) example_store)"
    unfolding dt b by simp
  have e: "dense utc example_store (date (toTask row_B)) (period (toTask row_B))"
    unfolding dt dense_def Let_def b by (simp add: toTask_def row_A_def row_B_def row_C_def upt_rec)
  note t = delete_keeps_dense[OF d read_example_B m e, unfolded dt b]
  have f: "filter (\<lambda>x. id_task x \<noteq> ''2222222223'') [toTask row_A, toTask row_B, toTask row_C] =
      [toTask row_A, toTask row_C]"
    by (simp add: toTask_def row_A_def row_B_def row_C_def)
  have u: "map2 (\<lambda>k x. x\<lparr>sortOrder := int k\<rparr>) [0..<length [toTask row_A, toTask row_B, toTask row_C] - 1]
      [toTask row_A, toTask row_C] = [toTask row_A, toTask (row_C\<lparr>col_sortOrder := 1\<rparr>)]"
    by (simp add: toTask_def row_A_def row_C_def upt_rec)
  show ?thesis
    using d read_example_B m e t unfolding dt b f u by simp
qed

section \<open>Operations that keep a bucket dense\<close>

lemma dense_iff_mset:
  "dense env s d q \<longleftrightarrow>
     mset (map col_sortOrder (filter (whereClause env (Some d) (Some q)) (db s))) =
     mset (map int [0..<length (filter (whereClause env (Some d) (Some q)) (db s))])"
proof -
  let ?F = "filter (whereClause env (Some d) (Some q)) (db s)"
  let ?X = "map col_sortOrder (sort_key col_sortOrder ?F)"
  let ?Y = "map int [0..<length ?F]"
  have sy: "sorted ?Y" by (simp add: sorted_map strict_mono_on_def sorted_wrt_map)
  have d: "dense env s d q \<longleftrightarrow> ?X = ?Y"
    by (simp add: dense_def list_tasks_eq sortOrder_toTask del: map_map)
  have mx: "mset ?X = mset (map col_sortOrder ?F)" by simp
  show ?thesis
  proof
    assume "dense env s d q"
    then show "mset (map col_sortOrder ?F) = mset ?Y" using d mx by simp
  next
    assume a: "mset (map col_sortOrder ?F) = mset ?Y"
    have "sort (map col_sortOrder ?F) = ?X"
      by (rule properties_for_sort) (simp_all)
    moreover have "sort (map col_sortOrder ?F) = ?Y"
      by (rule properties_for_sort[OF a[symmetric] sy])
    ultimately show "dense env s d q" using d by simp
  qed
qed

lemma whereClause_bucket:
  "q \<noteq> [] \<Longrightarrow> whereClause env (Some d) (Some q) r \<longleftrightarrow> inDay env d (col_date r) \<and> col_period r = q"
  by (simp add: whereClause_def)

lemma renumber_from_untouched:
  assumes "\<forall>r\<in>set t. P r \<longrightarrow> col_id r \<notin> set ids"
      and w: "\<And>r k. P (r\<lparr>col_sortOrder := k\<rparr>) = P r"
  shows "filter P (renumber_from n ids t) = filter P t"
proof -
  have "renumber_from n ids (filter P t) = filter P t"
    unfolding renumber_from_def
  proof (rule map_idI)
    fix r assume "r \<in> set (filter P t)"
    then have "col_id r \<notin> set ids" using assms(1) by simp
    then have "last_pos ids (col_id r) = None" by (simp add: last_pos_None_iff)
    then show "(case last_pos ids (col_id r) of None \<Rightarrow> r | Some j \<Rightarrow> r\<lparr>col_sortOrder := int (n + j)\<rparr>) = r"
      by simp
  qed
  then show ?thesis by (simp add: renumber_from_filter[of P, OF w])
qed

lemma renumber_from_dense:
  assumes d: "distinct ids"
      and m: "mset (map col_id (filter W t)) = mset ids"
      and w: "\<And>r k. W (r\<lparr>col_sortOrder := k\<rparr>) = W r"
  shows "mset (map col_sortOrder (filter W (renumber_from 0 ids t))) =
         mset (map int [0..<length (filter W t)])"
proof -
  let ?F = "filter W t"
  let ?h = "\<lambda>i. int (the (last_pos ids i))"
  have len: "length ?F = length ids" using m by (metis length_map size_mset)
  have "map col_sortOrder (renumber_from 0 ids ?F) = map ?h (map col_id ?F)"
  proof -
    have "col_sortOrder (case last_pos ids (col_id r) of None \<Rightarrow> r | Some j \<Rightarrow> r\<lparr>col_sortOrder := int (0 + j)\<rparr>)
        = ?h (col_id r)" if "r \<in> set ?F" for r
    proof -
      have "col_id r \<in> set ids" using that m by (metis image_eqI list.set_map mset_eq_setD)
      then obtain j where "last_pos ids (col_id r) = Some j"
        using last_pos_None_iff[of ids "col_id r"] by (cases "last_pos ids (col_id r)") auto
      then show ?thesis by simp
    qed
    then show ?thesis by (simp add: renumber_from_def)
  qed
  then have "mset (map col_sortOrder (renumber_from 0 ids ?F)) = image_mset ?h (mset (map col_id ?F))"
    by (simp only: mset_map)
  also have "\<dots> = mset (map ?h ids)" unfolding m by simp
  also have "map ?h ids = map int [0..<length ids]"
    by (rule nth_equalityI) (simp_all add: last_pos_distinct[OF d])
  finally show ?thesis
    by (simp add: renumber_from_filter[of W, OF w] len)
qed


lemma dense_save [simp]: "dense env (save env' s) d q = dense env s d q"
  by (simp add: dense_def)

lemma dense_cong_filter:
  assumes "filter (whereClause env (Some d) (Some q)) (db s') = filter (whereClause env (Some d) (Some q)) (db s)"
  shows "dense env s' d q = dense env s d q"
  by (simp add: dense_iff_mset assms)

lemma dense_empty:
  "filter (whereClause env (Some d) (Some q)) (db s) = [] \<Longrightarrow> dense env s d q"
  by (simp add: dense_iff_mset)

lemma dense_map_cols:
  assumes "\<And>r. col_sortOrder (f r) = col_sortOrder r"
      and "\<And>r. col_period (f r) = col_period r"
      and "\<And>r. col_date (f r) = col_date r"
  shows "dense env (s\<lparr>db := map f (db s)\<rparr>) d q = dense env s d q"
proof -
  have w: "whereClause env (Some d) (Some q) (f r) = whereClause env (Some d) (Some q) r" for r
    by (simp add: whereClause_def assms)
  have F: "filter (whereClause env (Some d) (Some q)) (map f (db s)) =
        map f (filter (whereClause env (Some d) (Some q)) (db s))"
    by (simp add: filter_map o_def w)
  show ?thesis
    unfolding dense_iff_mset by (simp add: F o_def assms(1))
qed

lemma same_bucket:
  assumes "day_windows env" and "q \<noteq> []" and "p \<noteq> []"
      and "whereClause env (Some d) (Some q) r" and "whereClause env (Some day) (Some p) r"
  shows "whereClause env (Some d) (Some q) = whereClause env (Some day) (Some p)"
proof -
  have 1: "inDay env d (col_date r)" "col_period r = q" and 2: "inDay env day (col_date r)" "col_period r = p"
    using assms by (simp_all add: whereClause_bucket)
  have "inDay env d y = inDay env day y" for y
    using assms(1) 1(1) 2(1) unfolding day_windows_def by blast
  then show ?thesis
    using 1(2) 2(2) assms(2,3) by (auto simp: fun_eq_iff whereClause_bucket)
qed

lemma renumber_same_bucket:
  assumes "distinct ids"
      and "mset (map col_id (filter (whereClause env (Some d) (Some q)) t)) = mset ids"
  shows "dense env (s\<lparr>db := renumber_from 0 ids t\<rparr>) d q"
proof -
  let ?W = "whereClause env (Some d) (Some q)"
  have "filter ?W (renumber_from 0 ids t) = renumber_from 0 ids (filter ?W t)"
    by (rule renumber_from_filter) simp
  then have l: "length (filter ?W (renumber_from 0 ids t)) = length (filter ?W t)"
    by (simp add: renumber_from_def)
  show ?thesis
    unfolding dense_iff_mset using renumber_from_dense[of ids ?W t, OF assms whereClause_sortOrder] l by simp
qed

lemma renumber_other_bucket:
  assumes "distinct (map col_id t)"
      and "set ids \<subseteq> col_id ` set (filter W t)"
      and "\<forall>r\<in>set t. \<not> (P r \<and> W r)"
      and "\<And>r k. P (r\<lparr>col_sortOrder := k\<rparr>) = P r"
  shows "filter P (renumber_from n ids t) = filter P t"
proof (rule renumber_from_untouched)
  show "\<forall>r\<in>set t. P r \<longrightarrow> col_id r \<notin> set ids"
  proof (intro ballI impI notI)
    fix r assume r: "r \<in> set t" "P r" "col_id r \<in> set ids"
    then obtain r' where r': "r' \<in> set t" "W r'" "col_id r' = col_id r" using assms(2) by auto
    have "inj_on col_id (set t)" using assms(1) by (simp add: distinct_map)
    then have "r' = r" using r(1) r'(1,3) by (auto dest: inj_onD)
    then show False using assms(3) r r' by blast
  qed
qed (rule assms(4))


lemma bucket_ids_eq:
  "bucket_ids env day p s = col_id ` set (filter (whereClause env (Some day) (Some p)) (db s))"
  unfolding bucket_ids_def list_tasks_eq id_task_toTask by simp

lemma update_dense: "dense env s d q \<Longrightarrow> dense env (snd (update i nm s)) d q"
  by (cases "checkExists i s") (simp_all add: update_def Let_def dense_map_cols)

lemma markComplete_dense: "dense env s d q \<Longrightarrow> dense env (snd (markComplete env i s)) d q"
  by (cases "checkExists i s") (simp_all add: markComplete_def Let_def dense_map_cols)

lemma markIncomplete_dense: "dense env s d q \<Longrightarrow> dense env (snd (markIncomplete env i s)) d q"
  by (cases "checkExists i s") (simp_all add: markIncomplete_def Let_def dense_map_cols)

lemma clearPeriod_dense:
  assumes "day_windows env" and "q \<noteq> []" and "dense env s d q"
  shows "dense env (clearPeriod env day p s) d q"
proof -
  let ?P = "whereClause env (Some d) (Some q)"
  let ?Q = "\<lambda>r. inDay env day (col_date r) \<and> col_period r = p"
  let ?s' = "s\<lparr>db := filter (\<lambda>r. \<not> ?Q r) (db s)\<rparr>"
  have c: "clearPeriod env day p s = save env ?s'" by (simp add: clearPeriod_def)
  show ?thesis
  proof (cases "\<exists>r\<in>set (db s). ?P r \<and> ?Q r")
    case True
    then obtain r where r: "?P r" "?Q r" by blast
    then have p: "p \<noteq> []" using assms(2) by (auto simp: whereClause_bucket)
    then have "whereClause env (Some day) (Some p) r" using r(2) by (simp add: whereClause_bucket)
    then have "?P = whereClause env (Some day) (Some p)"
      using same_bucket[OF assms(1,2) p r(1)] by simp
    then have "?P = ?Q" using p by (auto simp: fun_eq_iff whereClause_bucket)
    then have "filter ?P (db ?s') = []" by (simp add: filter_empty_conv)
    then show ?thesis unfolding c dense_save by (rule dense_empty)
  next
    case False
    have "filter ?P (db ?s') = filter (\<lambda>r. \<not> ?Q r \<and> ?P r) (db s)" by simp
    also have "\<dots> = filter ?P (db s)"
      by (rule filter_cong[OF refl]) (use False in blast)
    finally have "filter ?P (db ?s') = filter ?P (db s)" .
    then have "dense env ?s' d q = dense env s d q" by (rule dense_cong_filter)
    then show ?thesis unfolding c dense_save using assms(3) by simp
  qed
qed

lemma updateOrder_dense:
  assumes w: "day_windows env" and u: "distinct (map col_id (db s))" and q: "q \<noteq> []" and p: "p \<noteq> []"
      and i: "distinct ids" and b: "set ids = bucket_ids env day p s" and e: "dense env s d q"
  shows "dense env (snd (updateOrder env day p ids s)) d q"
proof -
  let ?P = "whereClause env (Some d) (Some q)"
  let ?W = "whereClause env (Some day) (Some p)"
  have o: "snd (updateOrder env day p ids s) = save env (s\<lparr>db := renumber_from 0 ids (db s)\<rparr>)"
    using updateOrder_subset[of ids env day p s] b by simp
  show ?thesis
  proof (cases "\<exists>r\<in>set (db s). ?P r \<and> ?W r")
    case True
    then obtain r where "?P r" "?W r" by blast
    then have pw: "?P = ?W" using same_bucket[OF w q p] by simp
    have dW: "distinct (map col_id (filter ?W (db s)))" by (rule distinct_map_filter[OF u])
    have sW: "set (map col_id (filter ?W (db s))) = set ids" using b by (simp add: bucket_ids_eq)
    have "mset (map col_id (filter ?W (db s))) = mset ids"
      using set_eq_iff_mset_eq_distinct[OF dW i] sW by blast
    then have "mset (map col_id (filter ?P (db s))) = mset ids" unfolding pw .
    then have "dense env (s\<lparr>db := renumber_from 0 ids (db s)\<rparr>) d q"
      by (rule renumber_same_bucket[OF i])
    then show ?thesis unfolding o dense_save .
  next
    case False
    have "set ids \<subseteq> col_id ` set (filter ?W (db s))" using b by (simp add: bucket_ids_eq)
    then have "filter ?P (renumber_from 0 ids (db s)) = filter ?P (db s)"
      using renumber_other_bucket[OF u, of ids ?W ?P 0] False by simp
    then have "filter ?P (db (s\<lparr>db := renumber_from 0 ids (db s)\<rparr>)) = filter ?P (db s)" by simp
    then have "dense env (s\<lparr>db := renumber_from 0 ids (db s)\<rparr>) d q = dense env s d q"
      by (rule dense_cong_filter)
    then show ?thesis unfolding o dense_save using e by simp
  qed
qed

lemma delete_dense:
  assumes w: "day_windows env" and u: "distinct (map col_id (db s))"
      and n: "\<forall>r\<in>set (db s). col_period r \<noteq> []" and q: "q \<noteq> []" and e: "dense env s d q"
  shows "dense env (snd (delete env i s)) d q"
proof (cases "read i s")
  case None
  then show ?thesis using e by (simp add: delete_def checkExists_def)
next
  case (Some t)
  let ?P = "whereClause env (Some d) (Some q)"
  let ?W = "whereClause env (Some (date t)) (Some (period t))"
  let ?t1 = "filter (\<lambda>r. col_id r \<noteq> i) (db s)"
  let ?ids = "map col_id (sort_key col_sortOrder (filter ?W ?t1))"
  obtain r0 rs where f: "filter (\<lambda>r. col_id r = i) (db s) = r0 # rs" and t: "t = toTask r0"
    using Some by (auto simp: read_def split: list.splits)
  have "r0 \<in> set (filter (\<lambda>r. col_id r = i) (db s))" by (simp add: f)
  then have r0: "r0 \<in> set (db s)" "col_id r0 = i" by simp_all
  have dt: "date t = col_date r0" "period t = col_period r0" by (simp_all add: t toTask_def)
  have p: "period t \<noteq> []" using n r0(1) dt by simp
  have o: "snd (delete env i s) = save env (s\<lparr>db := renumber_from 0 ?ids ?t1\<rparr>)"
    by (simp add: delete_eq[OF Some])
  have u1: "distinct (map col_id ?t1)" by (rule distinct_map_filter[OF u])
  have di: "distinct ?ids" by (intro distinct_map_sort_filter u1)
  show ?thesis
  proof (cases "\<exists>r\<in>set (db s). ?P r \<and> ?W r")
    case True
    then obtain r where "?P r" "?W r" by blast
    then have pw: "?P = ?W" using same_bucket[OF w q p] by simp
    have "mset (map col_id (filter ?W ?t1)) = mset ?ids" by (simp only: mset_map mset_sort)
    then have "mset (map col_id (filter ?P ?t1)) = mset ?ids" unfolding pw .
    then have "dense env (s\<lparr>db := renumber_from 0 ?ids ?t1\<rparr>) d q"
      by (rule renumber_same_bucket[OF di])
    then show ?thesis unfolding o dense_save .
  next
    case False
    have "\<not> ?P r0"
    proof
      assume a: "?P r0"
      then have "inDay env d (col_date r0)" using q by (simp add: whereClause_bucket)
      then have "inDay env (col_date r0) (col_date r0)"
        using w unfolding day_windows_def by blast
      then have "?W r0" using p by (simp add: whereClause_bucket dt)
      then show False using False a r0(1) by blast
    qed
    moreover have "r = r0" if "r \<in> set (db s)" "col_id r = i" for r
      using u that r0 by (auto simp: distinct_map dest: inj_onD)
    ultimately have "\<And>r. r \<in> set (db s) \<Longrightarrow> (col_id r \<noteq> i \<and> ?P r) = ?P r"
      by blast
    then have "filter (\<lambda>r. col_id r \<noteq> i \<and> ?P r) (db s) = filter ?P (db s)"
      by (rule filter_cong[OF refl])
    then have keep: "filter ?P ?t1 = filter ?P (db s)" by simp
    have "set ?ids \<subseteq> col_id ` set (filter ?W ?t1)" by simp
    moreover have "\<forall>r\<in>set ?t1. \<not> (?P r \<and> ?W r)" using False by simp
    ultimately have "filter ?P (renumber_from 0 ?ids ?t1) = filter ?P ?t1"
      using renumber_other_bucket[OF u1, of ?ids ?W ?P 0] by simp
    then have "filter ?P (db (s\<lparr>db := renumber_from 0 ?ids ?t1\<rparr>)) = filter ?P (db s)"
      using keep by simp
    then have "dense env (s\<lparr>db := renumber_from 0 ?ids ?t1\<rparr>) d q = dense env s d q"
      by (rule dense_cong_filter)
    then show ?thesis unfolding o dense_save using e by simp
  qed
qed

section \<open>The example calendar\<close>

lemma same_multiple:
  fixes m :: int
  assumes "0 < m" and "d - d mod m \<le> x" and "x < d - d mod m + m"
  shows "x - x mod m = d - d mod m"
proof -
  have "x = m * (d div m) + (x - (d - d mod m))" by (simp add: minus_mod_eq_mult_div)
  moreover have "0 \<le> x - (d - d mod m)" "x - (d - d mod m) < m" using assms by simp_all
  ultimately have "x div m = d div m" by (rule int_div_pos_eq)
  then show ?thesis by (simp add: minus_mod_eq_mult_div)
qed

lemma inDay_utc:
  "inDay utc d x \<longleftrightarrow> utc_startOfDay d \<le> x \<and> x < utc_startOfDay d + (msPerDay - 1)"
  by (simp add: inDay_def utc_def utc_endOfDay_def)

lemma utc_day_windows: "day_windows utc"
proof -
  have pos: "0 < msPerDay" by (simp add: msPerDay_def)
  have eq: "utc_startOfDay x = utc_startOfDay d" if "inDay utc d x" for d x
  proof -
    have 1: "d - d mod msPerDay \<le> x" and 2: "x < d - d mod msPerDay + (msPerDay - 1)"
      using that unfolding inDay_utc utc_startOfDay_def by blast+
    from 2 have 3: "x < d - d mod msPerDay + msPerDay" by linarith
    show ?thesis unfolding utc_startOfDay_def by (rule same_multiple[OF pos 1 3])
  qed
  show ?thesis
    unfolding day_windows_def
  proof (intro allI impI)
    fix d x y assume "inDay utc d x"
    then have "utc_startOfDay x = utc_startOfDay d" by (rule eq)
    then show "inDay utc x y = inDay utc d y" unfolding inDay_utc by simp
  qed
qed


section \<open>Dense buckets\<close>

text \<open>
  C2, amended. Under a calendar whose days partition the dates, in a table with unique
  ids and no empty period, a bucket whose \<open>sortOrder\<close> values are exactly 0, ..., n - 1
  is still such a bucket after \<open>update\<close>, \<open>markComplete\<close>, \<open>markIncomplete\<close>, \<open>delete\<close>
  and \<open>clearPeriod\<close>, whatever their arguments, and after an \<open>updateOrder\<close> whose
  \<open>orderedIds\<close> lists every id of its bucket exactly once. Nothing is said of \<open>create\<close>
  and \<open>copyIncompletes\<close>.
\<close>

theorem dense_preserved:
  assumes "day_windows env"
      and "distinct (map col_id (db s))"
      and "\<forall>r\<in>set (db s). col_period r \<noteq> []"
      and "q \<noteq> []"
      and "dense env s d q"
  shows "dense env (snd (update i nm s)) d q \<and>
         dense env (snd (markComplete env i s)) d q \<and>
         dense env (snd (markIncomplete env i s)) d q \<and>
         dense env (snd (delete env i s)) d q \<and>
         dense env (clearPeriod env day p s) d q \<and>
         (p \<noteq> [] \<and> distinct ids \<and> set ids = bucket_ids env day p s \<longrightarrow>
            dense env (snd (updateOrder env day p ids s)) d q)"
proof (intro conjI impI)
  show "dense env (snd (update i nm s)) d q" by (rule update_dense[OF assms(5)])
  show "dense env (snd (markComplete env i s)) d q" by (rule markComplete_dense[OF assms(5)])
  show "dense env (snd (markIncomplete env i s)) d q" by (rule markIncomplete_dense[OF assms(5)])
  show "dense env (snd (delete env i s)) d q" by (rule delete_dense[OF assms])
  show "dense env (clearPeriod env day p s) d q" by (rule clearPeriod_dense[OF assms(1,4,5)])
  show "dense env (snd (updateOrder env day p ids s)) d q"
    if "p \<noteq> [] \<and> distinct ids \<and> set ids = bucket_ids env day p s"
    using updateOrder_dense[OF assms(1,2,4) _ _ _ assms(5), of p ids day] that by blast
qed

text \<open>
  The claim as stated fails on the first \<open>create\<close> of a first run: the bucket, empty and
  so dense before, then holds one task whose \<open>sortOrder\<close> is 1. It fails as well on an
  \<open>updateOrder\<close> that returns after reordering a part of a dense bucket.
\<close>

lemma first_create:
  "create utc ''Buy milk'' morning_2024_06_10 ''days'' empty_store =
     (Inr (Some \<lparr>id_task = ''2222222222'', name = ''Buy milk'', complete = False, sortOrder = 1,
                 period = ''days'', date = day_2024_06_10\<rparr>),
      save utc \<lparr>db = [\<lparr>col_id = ''2222222222'', col_name = ''Buy milk'', col_complete = 0,
                        col_sortOrder = 1, col_period = ''days'', col_date = day_2024_06_10\<rparr>],
                 slot = None, draws = 1\<rparr>)"
proof -
  have i: "nanoid utc (draws empty_store) = ''2222222222''"
    by (simp add: utc_def utc_nanoid_def nanoid_alphabet_def empty_store_def)
  have f: "nanoid utc (draws empty_store) \<notin> col_id ` set (db empty_store)"
    by (simp add: empty_store_def)
  have l: "list_tasks utc (Some morning_2024_06_10) None empty_store = []"
    by (simp add: list_tasks_eq empty_store_def)
  have d: "startOfPeriod utc morning_2024_06_10 ''days'' = day_2024_06_10"
    by (simp add: startOfPeriod_def utc_def utc_startOfDay_def msPerDay_def morning_2024_06_10_def
        day_2024_06_10_def)
  show ?thesis
    unfolding create_fresh[OF f] i l d by (simp add: empty_store_def)
qed

theorem dense_invariant_counterexample:
  "dense utc empty_store morning_2024_06_10 ''days'' \<and>
   fst (create utc ''Buy milk'' morning_2024_06_10 ''days'' empty_store) =
     Inr (Some \<lparr>id_task = ''2222222222'', name = ''Buy milk'', complete = False, sortOrder = 1,
                 period = ''days'', date = day_2024_06_10\<rparr>) \<and>
   map sortOrder (list_tasks utc (Some morning_2024_06_10) (Some ''days'')
      (snd (create utc ''Buy milk'' morning_2024_06_10 ''days'' empty_store))) = [1] \<and>
   \<not> dense utc (snd (create utc ''Buy milk'' morning_2024_06_10 ''days'' empty_store))
      morning_2024_06_10 ''days'' \<and>
   dense utc example_store morning_2024_06_10 ''days'' \<and>
   fst (updateOrder utc morning_2024_06_10 ''days'' [''2222222224''] example_store) = Inr () \<and>
   \<not> dense utc (snd (updateOrder utc morning_2024_06_10 ''days'' [''2222222224''] example_store))
      morning_2024_06_10 ''days''"
proof -
  have e: "dense utc empty_store morning_2024_06_10 ''days''"
    by (simp add: dense_def list_tasks_eq empty_store_def)
  have l: "list_tasks utc (Some morning_2024_06_10) (Some ''days'')
      \<lparr>db = [\<lparr>col_id = ''2222222222'', col_name = ''Buy milk'', col_complete = 0,
                        col_sortOrder = 1, col_period = ''days'', col_date = day_2024_06_10\<rparr>],
                 slot = None, draws = 1\<rparr> =
      [\<lparr>id_task = ''2222222222'', name = ''Buy milk'', complete = False, sortOrder = 1,
                 period = ''days'', date = day_2024_06_10\<rparr>]"
    by (simp add: list_tasks_eq whereClause_def inDay_def utc_def utc_startOfDay_def utc_endOfDay_def
        msPerDay_def morning_2024_06_10_def day_2024_06_10_def toTask_def)
  have m: "map sortOrder (list_tasks utc (Some morning_2024_06_10) (Some ''days'')
      (snd (create utc ''Buy milk'' morning_2024_06_10 ''days'' empty_store))) = [1]"
    unfolding first_create snd_conv list_tasks_save l by simp
  have n: "\<not> dense utc (snd (create utc ''Buy milk'' morning_2024_06_10 ''days'' empty_store))
      morning_2024_06_10 ''days''"
    unfolding first_create snd_conv dense_save unfolding dense_def Let_def l by simp
  have f: "fst (create utc ''Buy milk'' morning_2024_06_10 ''days'' empty_store) =
     Inr (Some \<lparr>id_task = ''2222222222'', name = ''Buy milk'', complete = False, sortOrder = 1,
                 period = ''days'', date = day_2024_06_10\<rparr>)"
    unfolding first_create by simp
  show ?thesis using e f m n partial_ex_not_dense by blast
qed

theorem dense_preserved_witness:
  "day_windows utc \<and>
   distinct (map col_id (db example_store)) \<and>
   dense utc example_store day_2024_06_10 ''days'' \<and>
   dense utc (snd (update ''2222222223'' ''D'' example_store)) day_2024_06_10 ''days'' \<and>
   dense utc (snd (markComplete utc ''2222222223'' example_store)) day_2024_06_10 ''days'' \<and>
   dense utc (snd (markIncomplete utc ''2222222223'' example_store)) day_2024_06_10 ''days'' \<and>
   dense utc (snd (delete utc ''2222222223'' example_store)) day_2024_06_10 ''days'' \<and>
   dense utc (clearPeriod utc morning_2024_06_10 ''days'' example_store) day_2024_06_10 ''days'' \<and>
   set [''2222222224'', ''2222222223'', ''2222222222''] =
     bucket_ids utc morning_2024_06_10 ''days'' example_store \<and>
   dense utc (snd (updateOrder utc morning_2024_06_10 ''days''
      [''2222222224'', ''2222222223'', ''2222222222''] example_store)) day_2024_06_10 ''days''"
proof -
  have u: "distinct (map col_id (db example_store))"
    by (simp add: example_store_def row_A_def row_B_def row_C_def)
  have n: "\<forall>r\<in>set (db example_store). col_period r \<noteq> []"
    by (simp add: example_store_def row_A_def row_B_def row_C_def)
  have q: "''days'' \<noteq> []" by simp
  have b: "set [''2222222224'', ''2222222223'', ''2222222222''] =
     bucket_ids utc morning_2024_06_10 ''days'' example_store"
    unfolding example_bucket_ids by auto
  have i: "distinct [''2222222224'', ''2222222223'', ''2222222222'']" by simp
  note t = dense_preserved[OF utc_day_windows u n q example_dense,
      of "''2222222223''" "''D''" morning_2024_06_10 "''days''"
         "[''2222222224'', ''2222222223'', ''2222222222'']"]
  show ?thesis
    using utc_day_windows u example_dense t b i q by blast
qed

section \<open>Copying the incomplete tasks of the previous bucket\<close>

lemma length_list_day:
  "length (list_tasks env (Some day) None s) = length (filter (\<lambda>x. inDay env day (col_date x)) (db s))"
proof -
  have "whereClause env (Some day) None = (\<lambda>x. inDay env day (col_date x))"
    by (simp add: whereClause_def fun_eq_iff)
  then show ?thesis by (simp add: list_tasks_eq)
qed

lemma upt_add_Suc: "[a..<a + Suc n] = a # [Suc a..<Suc a + n]"
  by (subst upt_rec) simp

lemma create_each_fresh:
  assumes "distinct (map (nanoid env) [draws s..<draws s + length ts])"
      and "\<forall>k<length ts. nanoid env (draws s + k) \<notin> col_id ` set (db s)"
  shows "fst (create_each env ts day p s) = None \<and>
         db (snd (create_each env ts day p s)) = db s @ copied_rows env ts day p (draws s) (db s) \<and>
         draws (snd (create_each env ts day p s)) = draws s + length ts"
  using assms
proof (induction ts arbitrary: s)
  case Nil
  then show ?case by simp
next
  case (Cons task rest)
  let ?r = "\<lparr>col_id = nanoid env (draws s), col_name = name task, col_complete = 0,
             col_sortOrder = int (length (filter (\<lambda>x. inDay env day (col_date x)) (db s))) + 1,
             col_period = p, col_date = startOfPeriod env day p\<rparr>"
  let ?s1 = "save env (s\<lparr>draws := Suc (draws s), db := db s @ [?r]\<rparr>)"
  have f0: "nanoid env (draws s) \<notin> col_id ` set (db s)"
    using Cons.prems(2) by fastforce
  have c: "create env (name task) day p s =
      (Inr (Some \<lparr>id_task = nanoid env (draws s), name = name task, complete = False,
                  sortOrder = int (length (filter (\<lambda>x. inDay env day (col_date x)) (db s))) + 1,
                  period = p, date = startOfPeriod env day p\<rparr>), ?s1)"
    using create_fresh[OF f0, of "name task" day p] by (simp add: length_list_day)
  have u: "[draws s..<draws s + length (task # rest)] = draws s # [Suc (draws s)..<Suc (draws s) + length rest]"
    using upt_add_Suc[of "draws s" "length rest"] by simp
  have d1: "distinct (map (nanoid env) [draws ?s1..<draws ?s1 + length rest])"
    using Cons.prems(1) unfolding u by (simp add: save_def)
  have n1: "\<forall>k<length rest. nanoid env (draws ?s1 + k) \<notin> col_id ` set (db ?s1)"
  proof (intro allI impI)
    fix k assume k: "k < length rest"
    have a: "nanoid env (draws s + Suc k) \<notin> col_id ` set (db s)"
      using Cons.prems(2) k by (metis Suc_less_eq length_Cons)
    have "Suc (draws s) + k \<in> set [Suc (draws s)..<Suc (draws s) + length rest]"
      using k unfolding set_upt atLeastLessThan_iff by linarith
    then have "nanoid env (Suc (draws s) + k) \<noteq> nanoid env (draws s)"
      using Cons.prems(1) unfolding u by (metis distinct.simps(2) image_eqI list.simps(9) list.set_map)
    then show "nanoid env (draws ?s1 + k) \<notin> col_id ` set (db ?s1)"
      using a by (simp add: save_def)
  qed
  note ih = Cons.IH[of ?s1, OF d1 n1]
  have e: "create_each env (task # rest) day p s = create_each env rest day p ?s1"
    by (simp add: c)
  show ?case
    unfolding e using ih by (simp add: save_def Let_def)
qed

lemma copied_rows_facts:
  "map col_name (copied_rows env ts day p n t) = map name ts \<and>
   map col_id (copied_rows env ts day p n t) = map (nanoid env) [n..<n + length ts] \<and>
   (\<forall>r\<in>set (copied_rows env ts day p n t).
      col_complete r = 0 \<and> col_period r = p \<and> col_date r = startOfPeriod env day p)"
proof (induction ts arbitrary: n t)
  case Nil
  then show ?case by simp
next
  case (Cons task rest)
  have "[n..<n + length (task # rest)] = n # [Suc n..<Suc n + length rest]"
    using upt_add_Suc[of n "length rest"] by simp
  then show ?case using Cons.IH by (simp add: Let_def)
qed


lemma incompletes_set:
  assumes "p \<noteq> []"
  shows "set (filter (\<lambda>t. \<not> complete t) (list_tasks env (Some a) (Some p) s)) =
         toTask ` {r \<in> set (db s). inDay env a (col_date r) \<and> col_period r = p \<and> col_complete r \<noteq> 1}"
proof -
  have "whereClause env (Some a) (Some p) = (\<lambda>r. inDay env a (col_date r) \<and> col_period r = p)"
    using assms by (simp add: whereClause_def fun_eq_iff)
  then show ?thesis
    by (auto simp: list_tasks_eq toTask_def)
qed

text \<open>
  C8. \<open>copyIncompletes(day, period)\<close> lists the bucket of the previous anchor: one day
  back for \<open>days\<close>, one week back for \<open>weeks\<close>, one month back for \<open>months\<close>, one year
  back for \<open>year\<close> and for any other period. When the ids it draws are new and differ
  from each other, it returns, having appended to the table one row for each task of
  that bucket that is not complete, in the order listed and with the task's name, not
  complete, of the period given and dated \<open>startOfPeriod(day, period)\<close>; it appends
  nothing else, so no row for a complete task.
\<close>

theorem copyIncompletes_copies:
  fixes inc :: "Task list" and new :: "row list"
  assumes "inc = filter (\<lambda>t. \<not> complete t) (list_tasks env (Some (previousAnchor env day p)) (Some p) s)"
      and "new = copied_rows env inc day p (draws s) (db s)"
      and "distinct (map (nanoid env) [draws s..<draws s + length inc])"
      and "\<forall>k<length inc. nanoid env (draws s + k) \<notin> col_id ` set (db s)"
  shows "fst (copyIncompletes env day p s) = Inr () \<and>
         db (snd (copyIncompletes env day p s)) = db s @ new \<and>
         map col_name new = map name inc \<and>
         map col_id new = map (nanoid env) [draws s..<draws s + length inc] \<and>
         (\<forall>r\<in>set new. col_complete r = 0 \<and> col_period r = p \<and> col_date r = startOfPeriod env day p) \<and>
         (p \<noteq> [] \<longrightarrow>
            set inc = toTask ` {r \<in> set (db s). inDay env (previousAnchor env day p) (col_date r) \<and>
                                  col_period r = p \<and> col_complete r \<noteq> 1}) \<and>
         previousAnchor env day ''days'' = startOfDay env (subDays env day 1) \<and>
         previousAnchor env day ''weeks'' = startOfWeek env (subWeeks env day 1) \<and>
         previousAnchor env day ''months'' = startOfMonth env (subMonths env day 1) \<and>
         previousAnchor env day ''year'' = startOfYear env (subYears env day 1) \<and>
         (p \<noteq> ''days'' \<and> p \<noteq> ''weeks'' \<and> p \<noteq> ''months'' \<longrightarrow>
            previousAnchor env day p = startOfYear env (subYears env day 1))"
proof -
  note ce = create_each_fresh[OF assms(3,4), of day p]
  have e: "copyIncompletes env day p s = (Inr (), save env (snd (create_each env inc day p s)))"
    using ce unfolding copyIncompletes_eq assms(1)[symmetric]
    by (cases "create_each env inc day p s") simp
  have 1: "fst (copyIncompletes env day p s) = Inr ()" by (simp add: e)
  have 2: "db (snd (copyIncompletes env day p s)) = db s @ new"
    using ce by (simp add: e assms(2))
  note cf = copied_rows_facts[of env inc day p "draws s" "db s", folded assms(2)]
  have 6: "p \<noteq> [] \<longrightarrow>
            set inc = toTask ` {r \<in> set (db s). inDay env (previousAnchor env day p) (col_date r) \<and>
                                  col_period r = p \<and> col_complete r \<noteq> 1}"
    unfolding assms(1) using incompletes_set by blast
  have 7: "previousAnchor env day ''days'' = startOfDay env (subDays env day 1)"
    "previousAnchor env day ''weeks'' = startOfWeek env (subWeeks env day 1)"
    "previousAnchor env day ''months'' = startOfMonth env (subMonths env day 1)"
    "previousAnchor env day ''year'' = startOfYear env (subYears env day 1)"
    "p \<noteq> ''days'' \<and> p \<noteq> ''weeks'' \<and> p \<noteq> ''months'' \<longrightarrow>
            previousAnchor env day p = startOfYear env (subYears env day 1)"
    by (simp_all add: previousAnchor_def)
  show ?thesis using 1 2 cf 6 7 by blast
qed

lemma example_previous:
  "filter (\<lambda>t. \<not> complete t)
     (list_tasks utc (Some (previousAnchor utc day_2024_06_11 ''days'')) (Some ''days'') example_store) =
   [toTask row_A, toTask row_C]"
  by (simp add: list_tasks_eq whereClause_def inDay_def example_defs utc_def utc_startOfDay_def
      utc_endOfDay_def msPerDay_def previousAnchor_def day_2024_06_11_def toTask_def)

lemma example_copied:
  "copied_rows utc [toTask row_A, toTask row_C] day_2024_06_11 ''days'' (draws example_store) (db example_store) =
   [\<lparr>col_id = ''2222222225'', col_name = ''A'', col_complete = 0, col_sortOrder = 1,
     col_period = ''days'', col_date = day_2024_06_11\<rparr>,
    \<lparr>col_id = ''2222222226'', col_name = ''C'', col_complete = 0, col_sortOrder = 2,
     col_period = ''days'', col_date = day_2024_06_11\<rparr>]"
proof -
  have i: "nanoid utc 3 = ''2222222225''" "nanoid utc 4 = ''2222222226''"
    by (simp_all add: utc_def utc_nanoid_def nanoid_alphabet_def)
  have d: "startOfPeriod utc day_2024_06_11 ''days'' = day_2024_06_11"
    by (simp add: startOfPeriod_def utc_def utc_startOfDay_def msPerDay_def day_2024_06_11_def)
  have w: "inDay utc day_2024_06_11 day_2024_06_11" "\<not> inDay utc day_2024_06_11 day_2024_06_10"
    by (simp_all add: inDay_def utc_def utc_startOfDay_def utc_endOfDay_def msPerDay_def
        day_2024_06_11_def day_2024_06_10_def)
  have c: "col_date row_A = day_2024_06_10" "col_date row_B = day_2024_06_10" "col_date row_C = day_2024_06_10"
    "name (toTask row_A) = ''A''" "name (toTask row_C) = ''C''"
    by (simp_all add: row_A_def row_B_def row_C_def toTask_def)
  have e: "draws example_store = 3" "db example_store = [row_A, row_B, row_C]"
    by (simp_all add: example_store_def)
  show ?thesis
    unfolding e by (simp add: Let_def i d w c)
qed

theorem copyIncompletes_copies_witness:
  "fst (copyIncompletes utc day_2024_06_11 ''days'' example_store) = Inr () \<and>
   db (snd (copyIncompletes utc day_2024_06_11 ''days'' example_store)) =
     [row_A, row_B, row_C,
      \<lparr>col_id = ''2222222225'', col_name = ''A'', col_complete = 0, col_sortOrder = 1,
       col_period = ''days'', col_date = day_2024_06_11\<rparr>,
      \<lparr>col_id = ''2222222226'', col_name = ''C'', col_complete = 0, col_sortOrder = 2,
       col_period = ''days'', col_date = day_2024_06_11\<rparr>]"
proof -
  have i: "nanoid utc 3 = ''2222222225''" "nanoid utc 4 = ''2222222226''"
    by (simp_all add: utc_def utc_nanoid_def nanoid_alphabet_def)
  have u: "[draws example_store..<draws example_store + length [toTask row_A, toTask row_C]] = [3, 4]"
    by (simp add: example_store_def upt_rec)
  have f1: "distinct (map (nanoid utc)
      [draws example_store..<draws example_store + length [toTask row_A, toTask row_C]])"
    unfolding u by (simp add: i)
  have f2: "\<forall>k<length [toTask row_A, toTask row_C].
      nanoid utc (draws example_store + k) \<notin> col_id ` set (db example_store)"
  proof (intro allI impI)
    fix k assume "k < length [toTask row_A, toTask row_C]"
    then have "k = 0 \<or> k = 1" by auto
    then have "nanoid utc (draws example_store + k) = ''2222222225'' \<or>
        nanoid utc (draws example_store + k) = ''2222222226''"
      using i by (auto simp: example_store_def)
    then show "nanoid utc (draws example_store + k) \<notin> col_id ` set (db example_store)"
      by (auto simp: example_store_def row_A_def row_B_def row_C_def)
  qed
  note t = copyIncompletes_copies[OF example_previous[symmetric] example_copied[symmetric] f1 f2]
  have e: "db example_store = [row_A, row_B, row_C]" by (simp add: example_store_def)
  show ?thesis using t unfolding e by simp
qed

section \<open>The saved image read back\<close>

lemma of_char_digit_char: "d < 10 \<Longrightarrow> (of_char (digit_char d) :: nat) = 48 + d"
  by (simp add: digit_char_def)

lemma digit_char_not_comma: "d < 10 \<Longrightarrow> digit_char d \<noteq> CHR '',''"
proof
  assume "d < 10" and "digit_char d = CHR '',''"
  then have "(of_char (digit_char d) :: nat) = of_char (CHR '','')" by simp
  with \<open>d < 10\<close> show False by (simp add: of_char_digit_char)
qed

lemma comma_not_digit_char: "d < 10 \<Longrightarrow> CHR '','' \<noteq> digit_char d"
  using digit_char_not_comma[of d] by auto

lemma is_digit_digit_char: "d < 10 \<Longrightarrow> is_digit (digit_char d)"
  by (simp add: is_digit_def of_char_digit_char)

lemma string_of_nat_digits:
  "string_of_nat n \<noteq> [] \<and> list_all is_digit (string_of_nat n) \<and> CHR '','' \<notin> set (string_of_nat n)"
proof (induction n rule: string_of_nat.induct)
  case (1 n)
  show ?case
  proof (cases "n < 10")
    case True
    then show ?thesis
      by (subst (1 2 3) string_of_nat.simps) (simp add: is_digit_digit_char digit_char_not_comma comma_not_digit_char)
  next
    case False
    have "n mod 10 < 10" by simp
    then show ?thesis
      using 1[OF False] False
      by (subst (1 2 3) string_of_nat.simps) (simp add: is_digit_digit_char digit_char_not_comma comma_not_digit_char)
  qed
qed

lemma string_of_nat_value:
  "foldl (\<lambda>k c. 10 * k + (of_char c - 48)) 0 (string_of_nat n) = n"
proof (induction n rule: string_of_nat.induct)
  case (1 n)
  show ?case
  proof (cases "n < 10")
    case True
    then show ?thesis by (subst string_of_nat.simps) (simp add: of_char_digit_char)
  next
    case False
    have "n mod 10 < 10" by simp
    then show ?thesis
      using 1[OF False] False
      by (subst string_of_nat.simps) (simp add: of_char_digit_char)
  qed
qed

lemma string_of_nat_length: "n < 10 \<Longrightarrow> length (string_of_nat n) = 1"
  by (subst string_of_nat.simps) simp

lemma string_of_nat_hd: "0 < n \<Longrightarrow> hd (string_of_nat n) \<noteq> CHR ''0''"
proof (induction n rule: string_of_nat.induct)
  case (1 n)
  show ?case
  proof (cases "n < 10")
    case True
    have "(of_char (digit_char n) :: nat) \<noteq> of_char (CHR ''0'')"
      using True "1.prems" by (simp add: of_char_digit_char)
    then have "digit_char n \<noteq> CHR ''0''" by auto
    then show ?thesis using True by (subst string_of_nat.simps) simp
  next
    case False
    then have "0 < n div 10" by simp
    then have "hd (string_of_nat (n div 10)) \<noteq> CHR ''0''" using 1(1)[OF False] by simp
    then show ?thesis
      using False string_of_nat_digits[of "n div 10"]
      by (subst string_of_nat.simps) simp
  qed
qed

lemma parse_nat_string_of_nat: "parse_nat (string_of_nat n) = Some n"
proof -
  have "1 < length (string_of_nat n) \<longrightarrow> hd (string_of_nat n) \<noteq> CHR ''0''"
  proof (cases "n < 10")
    case True
    then show ?thesis by (simp add: string_of_nat_length)
  next
    case False
    then show ?thesis by (simp add: string_of_nat_hd)
  qed
  then show ?thesis
    using string_of_nat_digits[of n] by (simp add: parse_nat_def string_of_nat_value)
qed

lemma split_comma_single: "CHR '','' \<notin> set w \<Longrightarrow> split_comma w = [w]"
  by (induction w) auto

lemma split_comma_append:
  "CHR '','' \<notin> set w \<Longrightarrow> split_comma (w @ CHR '','' # r) = w # split_comma r"
  by (induction w) auto

lemma split_comma_join:
  "ws \<noteq> [] \<Longrightarrow> \<forall>w\<in>set ws. CHR '','' \<notin> set w \<Longrightarrow> split_comma (join_comma ws) = ws"
proof (induction ws rule: join_comma.induct)
  case 1
  then show ?case by simp
next
  case (2 x)
  then show ?case by (simp add: split_comma_single)
next
  case (3 x y ys)
  then show ?case by (simp add: split_comma_append)
qed

lemma join_comma_Nil_iff: "\<forall>w\<in>set ws. w \<noteq> [] \<Longrightarrow> join_comma ws = [] \<longleftrightarrow> ws = []"
  by (induction ws rule: join_comma.induct) auto

lemma JSON_parse_stringify: "JSON_parse (JSON_stringify ns) = Inr ns"
proof (cases "ns = []")
  case True
  then show ?thesis by (simp add: JSON_parse_def JSON_stringify_def)
next
  case False
  let ?ws = "map string_of_nat ns"
  have ne: "join_comma ?ws \<noteq> []"
    using join_comma_Nil_iff[of ?ws] string_of_nat_digits False by simp
  have sp: "split_comma (join_comma ?ws) = ?ws"
    using split_comma_join[of ?ws] string_of_nat_digits False by simp
  show ?thesis
    by (simp add: JSON_parse_def JSON_stringify_def ne sp list_all_iff parse_nat_string_of_nat o_def)
qed

lemma JSON_stringify_truthy: "JSON_stringify ns \<noteq> []"
  by (simp add: JSON_stringify_def)


lemma Uint8Array_from: "map of_nat (map unat bs) = (bs :: 8 word list)"
  by (simp add: o_def)

text \<open>
  C9. When the engine reads back its own export of the table as it is, \<open>save\<close> followed by
  the constructor gives a store with the same table: \<open>list()\<close> without filters returns
  the same tasks, with the same fields, in the same order, as before \<open>save\<close>. The text
  that \<open>save\<close> writes is truthy and parses back to the same bytes.
\<close>

theorem save_reload_same_list:
  assumes "db_import env (db_export env (db s)) = db s"
  shows "DB_constructor env (slot (save env s)) n = Inr (save env (s\<lparr>draws := n\<rparr>)) \<and>
         list_tasks env None None (save env (s\<lparr>draws := n\<rparr>)) = list_tasks env None None s"
proof -
  have "DB_constructor env (slot (save env s)) n =
      Inr \<lparr>db = db_import env (db_export env (db s)), slot = slot (save env s), draws = n\<rparr>"
    by (simp add: DB_constructor_def save_def JSON_stringify_truthy JSON_parse_stringify Uint8Array_from
        del: map_map)
  then have "DB_constructor env (slot (save env s)) n = Inr (save env (s\<lparr>draws := n\<rparr>))"
    unfolding assms by (simp add: save_def)
  then show ?thesis by simp
qed

lemma example_export_import:
  "db_import utc (db_export utc (db example_store)) = db example_store"
  apply (simp add: utc_def utc_import_def utc_export_def put_text_def put_int_def get_text_def get_int_def
      example_store_def row_A_def row_B_def row_C_def day_2024_06_10_def)
  apply code_simp
  done

theorem save_reload_same_list_witness:
  "db_import utc (db_export utc (db example_store)) = db example_store \<and>
   DB_constructor utc (slot (save utc example_store)) 3 = Inr (save utc example_store) \<and>
   list_tasks utc None None (save utc example_store) = [toTask row_A, toTask row_B, toTask row_C]"
proof -
  have d: "example_store\<lparr>draws := 3\<rparr> = example_store" by (simp add: example_store_def)
  have l: "list_tasks utc None None example_store = [toTask row_A, toTask row_B, toTask row_C]"
    by (simp add: list_tasks_eq whereClause_def example_store_def row_A_def row_B_def row_C_def)
  show ?thesis
    using save_reload_same_list[OF example_export_import, of 3] example_export_import
    unfolding d l by simp
qed

end
